theory Spec2Isabelle
  imports Complex_Main "HOL-Library.Word"
begin

section \<open>Text and bytes\<close>

text \<open>
  A Python \<^verbatim>\<open>str\<close> is a sequence of Unicode code points and a \<^verbatim>\<open>bytes\<close> value a
  sequence of octets. Literals of the source are written \<open>lit ''...''\<close>; the carriage
  return is code point 13 and the line feed code point 10.
\<close>

type_synonym str = "nat list"

type_synonym byte = "8 word"

definition lit :: "string \<Rightarrow> str" where
  "lit s = map of_char s"

definition py_isspace :: "nat \<Rightarrow> bool" where
  \<comment> \<open>the code points \<^verbatim>\<open>str.isspace\<close> accepts, which \<^verbatim>\<open>str.rstrip()\<close> removes\<close>
  "py_isspace c =
     ((9 \<le> c \<and> c \<le> 13) \<or> (28 \<le> c \<and> c \<le> 32) \<or> c = 133 \<or> c = 160 \<or> c = 5760
      \<or> (8192 \<le> c \<and> c \<le> 8202) \<or> c = 8232 \<or> c = 8233 \<or> c = 8239 \<or> c = 8287
      \<or> c = 12288)"

definition rstrip :: "str \<Rightarrow> str" where
  "rstrip s = rev (dropWhile py_isspace (rev s))"

definition startswith :: "str \<Rightarrow> str \<Rightarrow> bool" where
  "startswith s p = (take (length p) s = p)"

fun digits :: "nat \<Rightarrow> str" where
  "digits n = (if n < 10 then [48 + n] else digits (n div 10) @ [48 + n mod 10])"

declare digits.simps [simp del]

definition py_str_int :: "int \<Rightarrow> str" where
  \<comment> \<open>\<^verbatim>\<open>str(i)\<close>, also what an f-string renders for an integer\<close>
  "py_str_int i = (if i < 0 then 45 # digits (nat (- i)) else digits (nat i))"

definition is_digit :: "nat \<Rightarrow> bool" where
  "is_digit c = (48 \<le> c \<and> c \<le> 57)"

definition py_int :: "str \<Rightarrow> int option" where
  \<comment> \<open>\<^verbatim>\<open>int(message)\<close> on an optionally signed run of ASCII digits, surrounding white space
      allowed; \<open>None\<close> is ValueError. The source only ever passes the literal 257; the
      underscore and non-ASCII digit forms Python also reads are not modelled.\<close>
  "py_int s =
     (let t = rstrip (dropWhile py_isspace s);
          neg = (t \<noteq> [] \<and> hd t = 45);
          ds = (if t \<noteq> [] \<and> (hd t = 45 \<or> hd t = 43) then tl t else t)
      in if ds \<noteq> [] \<and> list_all is_digit ds
         then let v = int (foldl (\<lambda>a d. 10 * a + (d - 48)) 0 ds)
              in Some (if neg then - v else v)
         else None)"

definition continuation :: "byte \<Rightarrow> bool" where
  "continuation b = (0x80 \<le> b \<and> b \<le> 0xBF)"

definition tail_bits :: "byte \<Rightarrow> nat" where
  "tail_bits b = unat b - 0x80"

fun utf8_decode :: "byte list \<Rightarrow> str option" where
  \<comment> \<open>\<^verbatim>\<open>data.decode()\<close>: strict UTF-8; \<open>None\<close> is UnicodeDecodeError\<close>
  "utf8_decode [] = Some []"
| "utf8_decode (b # bs) =
     (if b < 0x80 then map_option ((#) (unat b)) (utf8_decode bs)
      else if 0xC2 \<le> b \<and> b \<le> 0xDF then
        (case bs of
           b1 # r \<Rightarrow>
             if continuation b1
             then map_option ((#) ((unat b - 0xC0) * 64 + tail_bits b1)) (utf8_decode r)
             else None
         | _ \<Rightarrow> None)
      else if 0xE0 \<le> b \<and> b \<le> 0xEF then
        (case bs of
           b1 # b2 # r \<Rightarrow>
             if continuation b1 \<and> continuation b2
                \<and> (b = 0xE0 \<longrightarrow> 0xA0 \<le> b1) \<and> (b = 0xED \<longrightarrow> b1 \<le> 0x9F)
             then map_option
                    ((#) ((unat b - 0xE0) * 4096 + tail_bits b1 * 64 + tail_bits b2))
                    (utf8_decode r)
             else None
         | _ \<Rightarrow> None)
      else if 0xF0 \<le> b \<and> b \<le> 0xF4 then
        (case bs of
           b1 # b2 # b3 # r \<Rightarrow>
             if continuation b1 \<and> continuation b2 \<and> continuation b3
                \<and> (b = 0xF0 \<longrightarrow> 0x90 \<le> b1) \<and> (b = 0xF4 \<longrightarrow> b1 \<le> 0x8F)
             then map_option
                    ((#) ((unat b - 0xF0) * 262144 + tail_bits b1 * 4096
                          + tail_bits b2 * 64 + tail_bits b3))
                    (utf8_decode r)
             else None
         | _ \<Rightarrow> None)
      else None)"

definition encodable :: "str \<Rightarrow> bool" where
  \<comment> \<open>\<^verbatim>\<open>message.encode()\<close> raises UnicodeEncodeError on a lone surrogate\<close>
  "encodable s = list_all (\<lambda>c. \<not> (0xD800 \<le> c \<and> c \<le> 0xDFFF)) s"

section \<open>Exceptions\<close>

text \<open>
  The standard-library exceptions the source catches or lets through, and the client's
  own exception classes (imported by the source from its \<^verbatim>\<open>errors\<close> module), each
  with the message it is raised with. The source needs Python 3.11 (it imports
  \<^verbatim>\<open>typing.Self\<close>), where \<^verbatim>\<open>asyncio.TimeoutError\<close> is the built-in
  \<^verbatim>\<open>TimeoutError\<close>, a subclass of \<^verbatim>\<open>OSError\<close>: \<open>TimeoutError\<close> below is that
  class, raised by \<^verbatim>\<open>wait_for\<close> and by the operating system alike, and \<open>OSError\<close>
  stands for every other \<^verbatim>\<open>OSError\<close>.
\<close>

datatype py_exception =
    TimeoutError | OSError | IncompleteReadError | LimitOverrunError
  | UnicodeDecodeError | UnicodeEncodeError | ValueError

datatype error =
    ClientConnectionError str
  | ClientTimeoutError str
  | CommandError str
  | Propagated py_exception

section \<open>The asyncio streams and the network\<close>

text \<open>
  The environment of the transport. A stream reader holds the bytes received and not yet
  consumed; what the peer delivers while the \<open>n\<close>-th read waits is an \<open>arrival\<close>: the
  bytes that come in, and how the wait ends if the separator is still missing: the peer
  stays silent, the peer has closed the stream, the link fails with an error of the
  operating system, or the link fails with the operating system's timeout error. A
  stream writer shares the transport with its reader: when the link fails the transport
  is closing from then on.
\<close>

datatype ending = Silent | PeerCloses | LinkFails | LinkTimesOut

record arrival =
  received :: "byte list"
  ending :: ending

record stream_reader =
  buffer :: "byte list"
  limit :: nat
  incoming :: "nat \<Rightarrow> arrival"
  served :: nat

record stream_writer =
  is_closing :: bool
  flushes :: "nat \<Rightarrow> bool"
  writes :: nat

fun find_sep :: "byte list \<Rightarrow> byte list \<Rightarrow> nat option" where
  \<comment> \<open>\<^verbatim>\<open>buffer.find(separator)\<close>: the index of the first occurrence\<close>
  "find_sep sep [] = (if sep = [] then Some 0 else None)"
| "find_sep sep (b # bs) =
     (if take (length sep) (b # bs) = sep then Some 0
      else map_option Suc (find_sep sep bs))"

definition expires_at_once :: "real option \<Rightarrow> bool" where
  \<comment> \<open>\<^verbatim>\<open>asyncio.wait_for\<close> with a timeout that is zero or negative cancels the awaited
      call before it has run and raises \<^verbatim>\<open>TimeoutError\<close>\<close>
  "expires_at_once timeout = (case timeout of None \<Rightarrow> False | Some t \<Rightarrow> t \<le> 0)"

text \<open>
  \<open>wait_for_readuntil\<close> is \<^verbatim>\<open>asyncio.wait_for(reader.readuntil(separator), timeout)\<close> as
  the library documents it, on a reader and the writer of the same transport; \<open>None\<close>
  means the call never completes (no timeout and a silent peer).
\<close>

definition wait_for_readuntil ::
  "stream_reader \<Rightarrow> stream_writer \<Rightarrow> byte list \<Rightarrow> real option
     \<Rightarrow> ((py_exception + byte list) \<times> stream_reader \<times> stream_writer) option" where
  "wait_for_readuntil r w separator timeout =
     (if expires_at_once timeout then Some (Inl TimeoutError, r, w)
      else if separator = [] then Some (Inl ValueError, r, w)
      else
        let a = incoming r (served r);
            buf = buffer r @ received a;
            r' = r\<lparr>buffer := buf, served := served r + 1\<rparr>
        in case find_sep separator buf of
             Some isep \<Rightarrow>
               if isep > limit r then Some (Inl LimitOverrunError, r', w)
               else Some (Inr (take (isep + length separator) buf),
                          r'\<lparr>buffer := drop (isep + length separator) buf\<rparr>, w)
           | None \<Rightarrow>
               if length buf + 1 - length separator > limit r
               then Some (Inl LimitOverrunError, r', w)
               else (case ending a of
                       PeerCloses \<Rightarrow> Some (Inl IncompleteReadError, r'\<lparr>buffer := []\<rparr>, w)
                     | LinkFails \<Rightarrow> Some (Inl OSError, r', w\<lparr>is_closing := True\<rparr>)
                     | LinkTimesOut \<Rightarrow> Some (Inl TimeoutError, r', w\<lparr>is_closing := True\<rparr>)
                     | Silent \<Rightarrow>
                         (case timeout of
                            None \<Rightarrow> None
                          | Some t \<Rightarrow> Some (Inl TimeoutError, r', w))))"

text \<open>
  \<^verbatim>\<open>asyncio.open_connection\<close> under \<^verbatim>\<open>wait_for\<close>: the \<open>n\<close>-th connect attempt of a run
  is established (with the peer's deliveries and whether each write is flushed), ends
  with \<^verbatim>\<open>TimeoutError\<close> (from \<^verbatim>\<open>wait_for\<close> or from the operating system), or fails
  with another \<^verbatim>\<open>OSError\<close>. A connect attempt is one such call; when the timeout of
  the connection is zero or negative the call ends with \<^verbatim>\<open>TimeoutError\<close> whatever the
  network would have answered.
\<close>

datatype dial_outcome =
    Established "nat \<Rightarrow> arrival" "nat \<Rightarrow> bool"
  | DialTimedOut
  | DialFailed

section \<open>The connection (connection.py)\<close>

record base_connection =
  host :: str
  port :: int
  conn_timeout :: "real option"
  reader :: "stream_reader option"
  writer :: "stream_writer option"

definition buffer_limit :: nat where
  "buffer_limit = 2 ^ 16"

text \<open>
  Connection objects live in a store and are named by reference; the session holds the
  reference of its own connection, its read timeout and its two locks. The run's
  observable actions (connect attempts, messages handed to the transport, lock
  operations) are appended to \<open>trace\<close>.
\<close>

type_synonym ref = nat

datatype lock_name = ConnectionLock | CommandLock

datatype event =
    Dialled str int
  | Sent str
  | Acquired lock_name
  | Released lock_name

record state =
  conns :: "ref \<Rightarrow> base_connection"
  connection :: ref
  read_timeout :: real
  connection_lock :: bool
  command_lock :: bool
  network :: "nat \<Rightarrow> dial_outcome"
  dials :: nat
  trace :: "event list"

definition open_conn :: "state \<Rightarrow> ref \<Rightarrow> (error + unit) \<times> state" where
  "open_conn s self =
     (let c = conns s self in
      if (case writer c of None \<Rightarrow> False | Some wr \<Rightarrow> \<not> is_closing wr) then (Inr (), s)
      else
        let s1 = s\<lparr>dials := dials s + 1, trace := trace s @ [Dialled (host c) (port c)]\<rparr>
        in if expires_at_once (conn_timeout c)
           then (Inl (ClientTimeoutError
                        (lit ''Timeout connecting to '' @ host c @ lit '':''
                         @ py_str_int (port c))), s1)
           else case network s (dials s) of
             Established deliveries flushed \<Rightarrow>
               (Inr (),
                s1\<lparr>conns := (conns s1)(self := c\<lparr>
                   reader := Some \<lparr>buffer = [], limit = buffer_limit,
                                    incoming = deliveries, served = 0\<rparr>,
                   writer := Some \<lparr>is_closing = False, flushes = flushed, writes = 0\<rparr>\<rparr>)\<rparr>)
           | DialTimedOut \<Rightarrow>
               (Inl (ClientTimeoutError
                       (lit ''Timeout connecting to '' @ host c @ lit '':''
                        @ py_str_int (port c))), s1)
           | DialFailed \<Rightarrow>
               (Inl (ClientConnectionError
                       (lit ''Failed to connect to '' @ host c @ lit '':''
                        @ py_str_int (port c))), s1))"

definition close_conn :: "state \<Rightarrow> ref \<Rightarrow> state" where
  "close_conn s self =
     (let c = conns s self in
      case writer c of
        None \<Rightarrow> s
      | Some wr \<Rightarrow>
          if \<not> is_closing wr then s\<lparr>conns := (conns s)(self := c\<lparr>writer := None\<rparr>)\<rparr>
          else s)"

definition closed :: "base_connection \<Rightarrow> bool" where
  "closed c = (case writer c of None \<Rightarrow> True | Some wr \<Rightarrow> is_closing wr)"

definition write_conn :: "state \<Rightarrow> ref \<Rightarrow> str \<Rightarrow> (error + unit) \<times> state" where
  "write_conn s self message =
     (let c = conns s self in
      case writer c of
        None \<Rightarrow> (Inl (ClientConnectionError (lit ''Client not connected.'')), s)
      | Some wr \<Rightarrow>
          if is_closing wr
          then (Inl (ClientConnectionError (lit ''Client not connected.'')), s)
          else if \<not> encodable message then (Inl (Propagated UnicodeEncodeError), s)
          else
            if flushes wr (writes wr)
            then (Inr (),
                  s\<lparr>conns := (conns s)(self := c\<lparr>writer :=
                       Some (wr\<lparr>writes := writes wr + 1\<rparr>)\<rparr>),
                    trace := trace s @ [Sent message]\<rparr>)
            else (Inl (ClientConnectionError []),
                  s\<lparr>conns := (conns s)(self := c\<lparr>writer :=
                       Some (wr\<lparr>writes := writes wr + 1, is_closing := True\<rparr>)\<rparr>),
                    trace := trace s @ [Sent message]\<rparr>))"

text \<open>
  In \<open>readuntil\<close> a connection that is not closed has a writer, so the branch without one
  is never taken; it is there because the reader and the writer are separate fields.
\<close>

definition readuntil ::
  "state \<Rightarrow> ref \<Rightarrow> byte list \<Rightarrow> real option \<Rightarrow> ((error + str) \<times> state) option" where
  "readuntil s self separator timeout =
     (let c = conns s self in
      case reader c of
        None \<Rightarrow> Some (Inl (ClientConnectionError (lit ''Client not connected.'')), s)
      | Some rd \<Rightarrow>
          if closed c
          then Some (Inl (ClientConnectionError (lit ''Client not connected.'')), s)
          else
            (case writer c of
               None \<Rightarrow> Some (Inl (ClientConnectionError (lit ''Client not connected.'')), s)
             | Some wr \<Rightarrow>
                 (case wait_for_readuntil rd wr separator timeout of
                    None \<Rightarrow> None
                  | Some (res, rd', wr') \<Rightarrow>
                      let s' = s\<lparr>conns := (conns s)(self :=
                                  c\<lparr>reader := Some rd', writer := Some wr'\<rparr>)\<rparr>
                      in (case res of
                            Inl TimeoutError \<Rightarrow> Some (Inl (ClientTimeoutError []), s')
                          | Inl OSError \<Rightarrow> Some (Inl (ClientConnectionError []), s')
                          | Inl IncompleteReadError \<Rightarrow>
                              Some (Inl (ClientConnectionError []), s')
                          | Inl e \<Rightarrow> Some (Inl (Propagated e), s')
                          | Inr data \<Rightarrow>
                              (case utf8_decode data of
                                 None \<Rightarrow> Some (Inl (Propagated UnicodeDecodeError), s')
                               | Some t \<Rightarrow> Some (Inr t, s'))))))"

section \<open>The command session (commands.py)\<close>

text \<open>
  An \<^verbatim>\<open>asyncio.Lock\<close> in a run of one task: acquiring a free lock takes it; acquiring
  a held lock waits for a release that no one is left to perform, so the call never
  completes (\<open>None\<close>). \<^verbatim>\<open>async with lock\<close> acquires, runs its body and releases
  on every way out of the body.
\<close>

definition locked :: "state \<Rightarrow> lock_name \<Rightarrow> bool" where
  "locked s l = (case l of ConnectionLock \<Rightarrow> connection_lock s | CommandLock \<Rightarrow> command_lock s)"

definition set_locked :: "state \<Rightarrow> lock_name \<Rightarrow> bool \<Rightarrow> state" where
  "set_locked s l v =
     (case l of
        ConnectionLock \<Rightarrow> s\<lparr>connection_lock := v\<rparr>
      | CommandLock \<Rightarrow> s\<lparr>command_lock := v\<rparr>)"

definition acquire :: "state \<Rightarrow> lock_name \<Rightarrow> state option" where
  "acquire s l =
     (if locked s l then None
      else Some ((set_locked s l True)\<lparr>trace := trace s @ [Acquired l]\<rparr>))"

definition release :: "state \<Rightarrow> lock_name \<Rightarrow> state" where
  "release s l = (set_locked s l False)\<lparr>trace := trace s @ [Released l]\<rparr>"

datatype param = PStr str | PInt int | PDec int nat

record command_response =
  r_command :: str
  r_args :: "str list"
  r_data :: "str list"

definition parse_command_error :: "str \<Rightarrow> error" where
  "parse_command_error message =
     (case py_int message of
        None \<Rightarrow> Propagated ValueError
      | Some error_code \<Rightarrow>
          CommandError (lit ''(Error code '' @ py_str_int error_code @ lit '')''))"

definition is_event :: "str \<Rightarrow> bool" where
  "is_event response_line =
     list_ex (startswith response_line) [lit ''S:'', lit ''L:'', lit ''LE'', lit ''LC'']"

definition get_connection :: "state \<Rightarrow> ((error + ref) \<times> state) option" where
  "get_connection s =
     (case acquire s ConnectionLock of
        None \<Rightarrow> None
      | Some s1 \<Rightarrow>
          if closed (conns s1 (connection s1)) then
            (case open_conn s1 (connection s1) of
               (Inl e, s2) \<Rightarrow> Some (Inl e, release s2 ConnectionLock)
             | (Inr u, s2) \<Rightarrow> Some (Inr (connection s2), release s2 ConnectionLock))
          else Some (Inr (connection s1), release s1 ConnectionLock))"

text \<open>
  The read loop of \<^verbatim>\<open>raw_request\<close>. It has no bound of its own: a peer that keeps
  sending event lines keeps it running, and then the function has no value.
\<close>

partial_function (option) read_response ::
  "state \<Rightarrow> ref \<Rightarrow> str list \<Rightarrow> ((error + str list) \<times> state) option" where
  "read_response s conn response_lines =
     (case readuntil s conn [0x0D] (Some (read_timeout s)) of
        None \<Rightarrow> None
      | Some (Inl e, s') \<Rightarrow> Some (Inl e, s')
      | Some (Inr line, s') \<Rightarrow>
          (let response_line = rstrip line in
           if response_line = lit ''257''
           then Some (Inl (parse_command_error response_line), s')
           else if is_event response_line then read_response s' conn response_lines
           else Some (Inr (response_lines @ [response_line]), s')))"

declare read_response.simps [code]

text \<open>
  \<open>line_read k s conn\<close> is the line the transport hands to the \<open>k\<close>-th round of the
  read loop started in state \<open>s\<close> (rounds counted from 0), with the state that read
  leaves: the loop reaches round \<open>k + 1\<close> only when round \<open>k\<close> read an event line.
\<close>

primrec line_read :: "nat \<Rightarrow> state \<Rightarrow> ref \<Rightarrow> (str \<times> state) option" where
  "line_read 0 s conn =
     (case readuntil s conn [0x0D] (Some (read_timeout s)) of
        Some (Inr line, s') \<Rightarrow> Some (line, s')
      | _ \<Rightarrow> None)"
| "line_read (Suc k) s conn =
     (case readuntil s conn [0x0D] (Some (read_timeout s)) of
        Some (Inr line, s') \<Rightarrow>
          if rstrip line \<noteq> lit ''257'' \<and> is_event (rstrip line) then line_read k s' conn
          else None
      | _ \<Rightarrow> None)"

text \<open>
  \<open>exchange\<close> is the body of the \<^verbatim>\<open>async with self._command_lock\<close> block of
  \<^verbatim>\<open>raw_request\<close>: the request is written with a line feed appended, then the
  response is read.
\<close>

definition exchange ::
  "state \<Rightarrow> ref \<Rightarrow> str \<Rightarrow> ((error + str list) \<times> state) option" where
  "exchange s conn request =
     (case write_conn s conn (request @ [10]) of
        (Inl e, s') \<Rightarrow> Some (Inl e, s')
      | (Inr u, s') \<Rightarrow> read_response s' conn [])"

definition raw_request ::
  "state \<Rightarrow> str \<Rightarrow> ref option \<Rightarrow> ((error + str list) \<times> state) option" where
  "raw_request s request conn_arg =
     (case (case conn_arg of Some c \<Rightarrow> Some (Inr c, s) | None \<Rightarrow> get_connection s) of
        None \<Rightarrow> None
      | Some (Inl e, s1) \<Rightarrow> Some (Inl e, s1)
      | Some (Inr conn, s1) \<Rightarrow>
          (case acquire s1 CommandLock of
             None \<Rightarrow> None
           | Some s2 \<Rightarrow>
               (case exchange s2 conn request of
                  None \<Rightarrow> None
                | Some (res, s3) \<Rightarrow> Some (res, release s3 CommandLock))))"

text \<open>
  \<^verbatim>\<open>encode_params\<close> and \<^verbatim>\<open>tokenize_response\<close> are imported by the source from its
  \<^verbatim>\<open>utils\<close> module; \<open>command\<close> takes them as the parameters \<open>encode\<close> and \<open>tokenize\<close>.
  The two unpacking assignments raise ValueError when there is nothing to unpack.
\<close>

definition build_request :: "(param list \<Rightarrow> bool \<Rightarrow> str) \<Rightarrow> str \<Rightarrow> param list \<Rightarrow> bool \<Rightarrow> str" where
  \<comment> \<open>the block of \<^verbatim>\<open>command\<close> that builds the request\<close>
  "build_request encode cmd params force_quotes =
     cmd @ (if params \<noteq> [] then [32] @ encode params force_quotes else []) @ [13]"

definition command ::
  "(param list \<Rightarrow> bool \<Rightarrow> str) \<Rightarrow> (str \<Rightarrow> error + str list) \<Rightarrow> state \<Rightarrow> str
     \<Rightarrow> param list \<Rightarrow> bool \<Rightarrow> ref option \<Rightarrow> ((error + command_response) \<times> state) option"
  where
  "command encode tokenize s cmd params force_quotes conn_arg =
     (let request = build_request encode cmd params force_quotes
      in case raw_request s request conn_arg of
           None \<Rightarrow> None
         | Some (Inl e, s') \<Rightarrow> Some (Inl e, s')
         | Some (Inr lines, s') \<Rightarrow>
             (if lines = [] then Some (Inl (Propagated ValueError), s')
              else
                let data = butlast lines; return_line = last lines
                in case tokenize return_line of
                     Inl e \<Rightarrow> Some (Inl e, s')
                   | Inr [] \<Rightarrow> Some (Inl (Propagated ValueError), s')
                   | Inr (c # args) \<Rightarrow>
                       Some (Inr \<lparr>r_command = drop 2 c, r_args = args, r_data = data\<rparr>, s')))"

text \<open>
  \<open>loop_entry s request conn_arg\<close> is the connection and the state with which a request
  enters its read loop: the connection was obtained, the command lock taken and the
  request written. It has no value when the request ends before that.
\<close>

definition loop_entry :: "state \<Rightarrow> str \<Rightarrow> ref option \<Rightarrow> (ref \<times> state) option" where
  "loop_entry s request conn_arg =
     (case (case conn_arg of Some c \<Rightarrow> Some (Inr c, s) | None \<Rightarrow> get_connection s) of
        Some (Inr conn, s1) \<Rightarrow>
          (case acquire s1 CommandLock of
             Some s2 \<Rightarrow>
               (case write_conn s2 conn (request @ [10]) of
                  (Inr u, s3) \<Rightarrow> Some (conn, s3)
                | (Inl e, s3) \<Rightarrow> None)
           | None \<Rightarrow> None)
      | _ \<Rightarrow> None)"

text \<open>
  \<open>dial_events s\<close> is what \<^verbatim>\<open>get_connection\<close> adds to the trace between taking and
  releasing the connection lock: one connect attempt when the session's connection is
  closed, nothing otherwise.
\<close>

definition dial_events :: "state \<Rightarrow> event list" where
  "dial_events s =
     (if closed (conns s (connection s))
      then [Dialled (host (conns s (connection s))) (port (conns s (connection s)))]
      else [])"

section \<open>The load interface (load.py)\<close>

text \<open>
  \<^verbatim>\<open>invoke\<close> belongs to the base class \<^verbatim>\<open>Interface\<close>, which the methods below only
  call; it is the parameter \<open>invoke\<close>, given the contractor number, the method name and
  the remaining arguments.
\<close>

definition ramp :: "(int \<Rightarrow> str \<Rightarrow> int list \<Rightarrow> 'r) \<Rightarrow> int \<Rightarrow> int \<Rightarrow> int \<Rightarrow> 'r" where
  "ramp invoke contractor_number level time =
     (let level = max (min level 100) 0
      in invoke contractor_number (lit ''VLO'') [level, time])"

definition set_level :: "(int \<Rightarrow> str \<Rightarrow> int list \<Rightarrow> 'r) \<Rightarrow> int \<Rightarrow> int \<Rightarrow> 'r" where
  "set_level invoke contractor_number level = ramp invoke contractor_number level 0"

section \<open>The wire codec\<close>

text \<open>
  The module \<^verbatim>\<open>utils\<close> that holds the codec is not among the sources; the two
  functions below follow the specification's description of \<open>encode\<close> and \<open>tokenize\<close>.
  A decimal parameter \<open>PDec m k\<close> stands for the number \<open>m / 10 ^ k\<close>, rendered with
  \<open>k\<close> fractional digits.
\<close>

definition py_str_decimal :: "int \<Rightarrow> nat \<Rightarrow> str" where
  "py_str_decimal m k =
     (let a = nat \<bar>m\<bar>; frac = digits (a mod 10 ^ k)
      in (if m < 0 then [45] else []) @ digits (a div 10 ^ k)
         @ (if k = 0 then [] else [46] @ replicate (k - length frac) 48 @ frac))"

definition encode_param :: "bool \<Rightarrow> param \<Rightarrow> str" where
  "encode_param force_quotes p =
     (case p of
        PStr v \<Rightarrow> if 32 \<in> set v \<or> force_quotes then [34] @ v @ [34] else v
      | PInt i \<Rightarrow> py_str_int i
      | PDec m k \<Rightarrow> py_str_decimal m k)"

fun join :: "str \<Rightarrow> str list \<Rightarrow> str" where
  "join sep [] = []"
| "join sep [x] = x"
| "join sep (x # y # ys) = x @ sep @ join sep (y # ys)"

definition encode_params :: "param list \<Rightarrow> bool \<Rightarrow> str" where
  \<comment> \<open>Modelled from the spec: \<^verbatim>\<open>utils.encode_params\<close> is missing. Integers and decimals
      render as their plain textual form; a string renders bare unless it contains a
      space or quoting is forced, and then it is wrapped in double quotes; the renderings
      are joined with a single space.\<close>
  "encode_params params force_quotes = join [32] (map (encode_param force_quotes) params)"

datatype scan_mode = Outside | Bare str | Quoted str

fun scan :: "scan_mode \<Rightarrow> str \<Rightarrow> str list option" where
  "scan Outside [] = Some []"
| "scan (Bare t) [] = Some [t]"
| "scan (Quoted t) [] = None"
| "scan Outside (c # cs) =
     (if py_isspace c then scan Outside cs
      else if c = 34 then scan (Quoted []) cs
      else scan (Bare [c]) cs)"
| "scan (Bare t) (c # cs) =
     (if py_isspace c then map_option ((#) t) (scan Outside cs)
      else scan (Bare (t @ [c])) cs)"
| "scan (Quoted t) (c # cs) =
     (if c = 34 then map_option ((#) t) (scan Outside cs)
      else scan (Quoted (t @ [c])) cs)"

definition tokenize_response :: "str \<Rightarrow> error + str list" where
  \<comment> \<open>Modelled from the spec: \<^verbatim>\<open>utils.tokenize_response\<close> is missing. The line is split
      into tokens delimited by white space; a run in double quotes, spaces included, is one
      token with the quotes stripped. The policy chosen for an unterminated quote is to
      fail the parse (ValueError).\<close>
  "tokenize_response line =
     (case scan Outside line of
        None \<Rightarrow> Inl (Propagated ValueError)
      | Some tokens \<Rightarrow> Inr tokens)"

definition param_text :: "param \<Rightarrow> str" where
  \<comment> \<open>the string rendering of a parameter value\<close>
  "param_text p =
     (case p of PStr v \<Rightarrow> v | PInt i \<Rightarrow> py_str_int i | PDec m k \<Rightarrow> py_str_decimal m k)"

section \<open>Example runs\<close>

text \<open>
  A controller at a fixed address, a session that has not connected yet, and a network
  whose connect attempts all have the same outcome. \<open>serving bs\<close> is a controller that
  accepts the connection, flushes every write and sends the bytes \<open>bs\<close> while the first
  read waits, then stays silent.
\<close>

definition ascii :: "string \<Rightarrow> byte list" where
  "ascii s = map of_char s"

definition quiet :: arrival where
  "quiet = \<lparr>received = [], ending = Silent\<rparr>"

definition deliver :: "byte list \<Rightarrow> nat \<Rightarrow> arrival" where
  "deliver bs n = (if n = 0 then \<lparr>received = bs, ending = Silent\<rparr> else quiet)"

definition serving :: "byte list \<Rightarrow> nat \<Rightarrow> dial_outcome" where
  "serving bs n = Established (deliver bs) (\<lambda>k. True)"

definition idle_connection :: base_connection where
  "idle_connection =
     \<lparr>host = lit ''10.0.0.5'', port = 10001, conn_timeout = Some 30,
      reader = None, writer = None\<rparr>"

definition attached :: "(nat \<Rightarrow> arrival) \<Rightarrow> base_connection" where
  \<comment> \<open>the connection once a controller with the deliveries \<open>d\<close> has accepted it\<close>
  "attached d =
     idle_connection\<lparr>
       reader := Some \<lparr>buffer = [], limit = buffer_limit, incoming = d, served = 0\<rparr>,
       writer := Some \<lparr>is_closing = False, flushes = (\<lambda>k. True), writes = 0\<rparr>\<rparr>"

definition listening :: "(nat \<Rightarrow> arrival) \<Rightarrow> state" where
  \<comment> \<open>a session whose connection to a controller with the deliveries \<open>d\<close> is open\<close>
  "listening d =
     \<lparr>conns = (\<lambda>r. attached d), connection = 0, read_timeout = 60,
      connection_lock = False, command_lock = False,
      network = (\<lambda>n. Established d (\<lambda>k. True)), dials = 1, trace = []\<rparr>"



definition reply_after_event :: "byte list" where
  "reply_after_event = ascii ''S:1 2 3'' @ [0x0D] @ ascii ''R:GVL 45'' @ [0x0D]"

definition error_after_event :: "byte list" where
  "error_after_event = ascii ''S:1 2 3'' @ [0x0D] @ ascii ''257'' @ [0x0D]"

definition data_then_reply :: "byte list" where
  "data_then_reply = ascii ''D1'' @ [0x0D] @ ascii ''R:GVL 45'' @ [0x0D]"

definition crlf_events_then_reply :: "byte list" where
  \<comment> \<open>a controller that ends its lines with carriage return and line feed\<close>
  "crlf_events_then_reply =
     ascii ''S:1 2 3'' @ [0x0D, 0x0A] @ ascii ''S:4 5 6'' @ [0x0D, 0x0A]
     @ ascii ''R:GVL 45'' @ [0x0D, 0x0A]"

definition crlf_event_then_error :: "byte list" where
  "crlf_event_then_error =
     ascii ''S:1 2 3'' @ [0x0D, 0x0A] @ ascii ''257'' @ [0x0D, 0x0A]"

definition data_words_then_reply :: "byte list" where
  "data_words_then_reply = ascii ''D1 x'' @ [0x0D] @ ascii ''R:GVL 45'' @ [0x0D]"

definition level_reply :: "byte list" where
  "level_reply = ascii ''R:GVL 67'' @ [0x0D]"

definition fresh :: "(nat \<Rightarrow> dial_outcome) \<Rightarrow> state" where
  "fresh net =
     \<lparr>conns = (\<lambda>r. idle_connection), connection = 0, read_timeout = 60,
      connection_lock = False, command_lock = False, network = net, dials = 0,
      trace = []\<rparr>"

section \<open>Notions used in the statements\<close>


definition solid :: "str \<Rightarrow> bool" where
  \<comment> \<open>a non-empty text without white space that does not start with a double quote\<close>
  "solid t = (t \<noteq> [] \<and> hd t \<noteq> 34 \<and> (\<forall>c \<in> set t. \<not> py_isspace c))"

definition recoverable :: "bool \<Rightarrow> param \<Rightarrow> bool" where
  \<comment> \<open>a string parameter has no double quote and, when it is rendered bare, is not empty
      and has no white space; numbers always qualify\<close>
  "recoverable force_quotes p =
     (case p of
        PStr v \<Rightarrow>
          34 \<notin> set v \<and> (32 \<in> set v \<or> force_quotes \<or> (v \<noteq> [] \<and> \<not> list_ex py_isspace v))
      | PInt i \<Rightarrow> True
      | PDec m k \<Rightarrow> True)"

section \<open>Facts about the read loop\<close>

lemma readuntil_frame:
  assumes "readuntil s self separator timeout = Some (res, s')"
  shows "\<exists>cs. s' = s\<lparr>conns := cs\<rparr>"
proof (cases "reader (conns s self) = None \<or> closed (conns s self)")
  case True
  then have "s' = s"
    using assms by (auto simp: readuntil_def Let_def split: option.splits)
  then have "s' = s\<lparr>conns := conns s\<rparr>" by simp
  then show ?thesis by blast
next
  case False
  then obtain rd wr where rd: "reader (conns s self) = Some rd"
    and op: "\<not> closed (conns s self)" and wr: "writer (conns s self) = Some wr"
    by (auto simp: closed_def split: option.splits)
  from assms obtain rd' wr' where
    "s' = s\<lparr>conns := (conns s)(self := (conns s self)\<lparr>reader := Some rd', writer := Some wr'\<rparr>)\<rparr>"
    by (auto simp: readuntil_def Let_def rd op wr
        split: option.splits sum.splits py_exception.splits prod.splits)
  then show ?thesis by blast
qed

lemma not_event_257: "\<not> is_event (lit ''257'')"
  by (simp add: is_event_def startswith_def lit_def)

lemma parse_command_error_257:
  "parse_command_error (lit ''257'') = CommandError (lit ''(Error code 257)'')"
  by (simp add: parse_command_error_def py_int_def lit_def rstrip_def py_isspace_def
      is_digit_def py_str_int_def digits.simps Let_def)

lemma read_response_result_aux:
  assumes "read_response s conn got = Some y"
  shows "(\<exists>cs. snd y = s\<lparr>conns := cs\<rparr>)
       \<and> (\<forall>ls. fst y = Inr ls \<longrightarrow> (\<exists>l. ls = got @ [l] \<and> \<not> is_event l \<and> l \<noteq> lit ''257''))"
proof -
  let ?P = "\<lambda>s (conn::ref) (got::str list) (y::(error + str list) \<times> state).
      (\<exists>cs. snd y = s\<lparr>conns := cs\<rparr>)
       \<and> (\<forall>ls. fst y = Inr ls \<longrightarrow> (\<exists>l. ls = got @ [l] \<and> \<not> is_event l \<and> l \<noteq> lit ''257''))"
  have "?P s conn got y"
  proof (rule read_response.raw_induct [where P = ?P, OF _ assms], goal_cases)
    case (1 rr s conn got y)
    show ?case
    proof (cases "readuntil s conn [0x0D] (Some (read_timeout s))")
      case None
      with 1(2) show ?thesis by simp
    next
      case (Some a)
      obtain r s1 where a: "a = (r, s1)" by (cases a)
      from readuntil_frame Some a obtain cs where s1: "s1 = s\<lparr>conns := cs\<rparr>" by blast
      show ?thesis
      proof (cases r)
        case (Inl e)
        with 1(2) Some a s1 show ?thesis by auto
      next
        case (Inr line)
        show ?thesis
        proof (cases "rstrip line = lit ''257''")
          case True
          with 1(2) Some a Inr s1 show ?thesis by auto
        next
          case n257: False
          show ?thesis
          proof (cases "is_event (rstrip line)")
            case True
            with 1(2) Some a Inr n257 have "rr s1 conn got = Some y"
              by (simp add: Let_def)
            from 1(1) [OF this] show ?thesis by (auto simp: s1)
          next
            case False
            with 1(2) Some a Inr n257 s1 show ?thesis by (auto simp: Let_def)
          qed
        qed
      qed
    qed
  qed
  then show ?thesis .
qed

lemma read_response_frame:
  "read_response s conn got = Some (res, s') \<Longrightarrow> \<exists>cs. s' = s\<lparr>conns := cs\<rparr>"
  using read_response_result_aux [of s conn got "(res, s')"] by simp

lemma read_response_accepts:
  "read_response s conn got = Some (Inr ls, s')
   \<Longrightarrow> \<exists>l. ls = got @ [l] \<and> \<not> is_event l \<and> l \<noteq> lit ''257''"
  using read_response_result_aux [of s conn got "(Inr ls, s')"] by simp

lemma read_response_event:
  assumes "readuntil s conn [0x0D] (Some (read_timeout s)) = Some (Inr line, s1)"
    and "is_event (rstrip line)"
  shows "read_response s conn got = read_response s1 conn got"
proof -
  have "rstrip line \<noteq> lit ''257''" using assms(2) not_event_257 by auto
  then show ?thesis
    using assms by (subst read_response.simps) (simp add: Let_def)
qed

lemma read_response_257:
  assumes "readuntil s conn [0x0D] (Some (read_timeout s)) = Some (Inr line, s1)"
    and "rstrip line = lit ''257''"
  shows "read_response s conn got = Some (Inl (CommandError (lit ''(Error code 257)'')), s1)"
  using assms by (subst read_response.simps) (simp add: Let_def parse_command_error_257)

lemma read_response_accept:
  assumes "readuntil s conn [0x0D] (Some (read_timeout s)) = Some (Inr line, s1)"
    and "rstrip line \<noteq> lit ''257''" and "\<not> is_event (rstrip line)"
  shows "read_response s conn got = Some (Inr (got @ [rstrip line]), s1)"
  using assms by (subst read_response.simps) (simp add: Let_def)

lemma read_response_error:
  assumes "readuntil s conn [0x0D] (Some (read_timeout s)) = Some (Inl e, s1)"
  shows "read_response s conn got = Some (Inl e, s1)"
  using assms by (subst read_response.simps) simp

lemma line_read_continue:
  assumes "line_read k s conn = Some (line, s1)" and "is_event (rstrip line)"
  shows "read_response s conn got = read_response s1 conn got"
  using assms
proof (induction k arbitrary: s)
  case 0
  then have "readuntil s conn [0x0D] (Some (read_timeout s)) = Some (Inr line, s1)"
    by (auto split: option.splits sum.splits prod.splits)
  then show ?case using 0(2) by (rule read_response_event)
next
  case (Suc k)
  from Suc.prems(1) obtain l0 s0 where
    r: "readuntil s conn [0x0D] (Some (read_timeout s)) = Some (Inr l0, s0)"
    and ev: "is_event (rstrip l0)" and rest: "line_read k s0 conn = Some (line, s1)"
    by (auto split: option.splits sum.splits prod.splits if_splits)
  have "read_response s conn got = read_response s0 conn got"
    using r ev by (rule read_response_event)
  also have "\<dots> = read_response s1 conn got"
    using rest Suc.prems(2) by (rule Suc.IH)
  finally show ?case .
qed

lemma line_read_first:
  assumes "line_read k s conn = Some (line, s1)"
  shows "\<exists>s0. readuntil s0 conn [0x0D] (Some (read_timeout s0)) = Some (Inr line, s1)
            \<and> (\<forall>got. read_response s conn got = read_response s0 conn got)"
  using assms
proof (induction k arbitrary: s)
  case 0
  then have "readuntil s conn [0x0D] (Some (read_timeout s)) = Some (Inr line, s1)"
    by (auto split: option.splits sum.splits prod.splits)
  then show ?case by blast
next
  case (Suc k)
  from Suc.prems(1) obtain l0 s0 where
    r: "readuntil s conn [0x0D] (Some (read_timeout s)) = Some (Inr l0, s0)"
    and ev: "is_event (rstrip l0)" and rest: "line_read k s0 conn = Some (line, s1)"
    by (auto split: option.splits sum.splits prod.splits if_splits)
  have step: "\<And>got. read_response s conn got = read_response s0 conn got"
    using r ev by (rule read_response_event)
  from Suc.IH [OF rest] show ?case by (auto simp: step)
qed

section \<open>The load interface clamps the level\<close>

text \<open>
  Claim C8. For every contractor number and every integer level, \<open>ramp\<close> passes the
  level clamped into the range from 0 to 100 to the VLO invocation, with the fade time
  unchanged: a level below 0 is sent as 0, a level above 100 as 100, and a level already
  in range as it is. \<open>set_level\<close> is \<open>ramp\<close> with fade time 0, so level 150 is sent as
  100 and level -5 as 0. This holds whatever \<open>invoke\<close> does with its arguments.
\<close>

theorem ramp_clamps_level:
  "ramp invoke cn level t =
     invoke cn (lit ''VLO'') [if level < 0 then 0 else if 100 < level then 100 else level, t]
   \<and> (0 \<le> level \<and> level \<le> 100 \<longrightarrow> ramp invoke cn level t = invoke cn (lit ''VLO'') [level, t])
   \<and> (\<exists>sent. 0 \<le> sent \<and> sent \<le> 100 \<and> ramp invoke cn level t = invoke cn (lit ''VLO'') [sent, t])
   \<and> set_level invoke cn level = ramp invoke cn level 0
   \<and> set_level invoke cn 150 = invoke cn (lit ''VLO'') [100, 0]
   \<and> set_level invoke cn (- 5) = invoke cn (lit ''VLO'') [0, 0]"
proof -
  have eq: "max (min level 100) 0 = (if level < 0 then 0 else if 100 < level then 100 else level)"
    by auto
  have r: "ramp invoke cn level t =
     invoke cn (lit ''VLO'') [if level < 0 then 0 else if 100 < level then 100 else level, t]"
    unfolding ramp_def Let_def eq ..
  have ex: "\<exists>sent. 0 \<le> sent \<and> sent \<le> 100 \<and> ramp invoke cn level t = invoke cn (lit ''VLO'') [sent, t]"
    by (rule exI [of _ "if level < 0 then 0 else if 100 < level then 100 else level"])
       (simp add: r)
  show ?thesis
    using r ex by (simp add: set_level_def ramp_def)
qed

theorem ramp_clamps_level_witness:
  "(0::int) \<le> 42 \<and> (42::int) \<le> 100
   \<and> ramp (\<lambda>c m a. (c, m, a)) 7 42 3 = (7, lit ''VLO'', [42, 3])
   \<and> set_level (\<lambda>c m a. (c, m, a)) 7 150 = (7, lit ''VLO'', [100, 0])
   \<and> set_level (\<lambda>c m a. (c, m, a)) 7 (- 5) = (7, lit ''VLO'', [0, 0])"
  using ramp_clamps_level [of "\<lambda>c m a. (c, m, a)" 7 42 3] by simp

section \<open>A failed connect leaves the connection as it was\<close>

lemma open_conn_failure:
  assumes "open_conn s self = (Inl e, s')"
  shows "s' = s\<lparr>dials := dials s + 1,
                 trace := trace s @ [Dialled (host (conns s self)) (port (conns s self))]\<rparr>"
    and "closed (conns s self)"
    and "(\<exists>msg. e = ClientTimeoutError msg) \<or> (\<exists>msg. e = ClientConnectionError msg)"
  using assms
  by (auto simp: open_conn_def Let_def closed_def split: if_splits option.splits dial_outcome.splits)

text \<open>
  Claim C10. If \<open>open\<close> fails, it fails with the client's timeout error or its connection
  error, and the store of connections is what it was before the call: the reader and
  the writer of the connection are unchanged. The connection therefore still reports
  closed, and the next call of \<open>open\<close> on it makes a connect attempt again.
\<close>

theorem open_failure_keeps_streams:
  assumes "open_conn s self = (Inl e, s')"
  shows "reader (conns s' self) = reader (conns s self)
       \<and> writer (conns s' self) = writer (conns s self)
       \<and> conns s' = conns s
       \<and> closed (conns s' self)
       \<and> ((\<exists>msg. e = ClientTimeoutError msg) \<or> (\<exists>msg. e = ClientConnectionError msg))
       \<and> dials s' = dials s + 1
       \<and> dials (snd (open_conn s' self)) = dials s' + 1"
proof -
  note f = open_conn_failure [OF assms]
  have c: "conns s' = conns s" by (simp add: f(1))
  have cl: "closed (conns s' self)" using f(2) by (simp add: c)
  have again: "dials (snd (open_conn s' self)) = dials s' + 1"
    using cl by (auto simp: open_conn_def Let_def closed_def split: option.splits dial_outcome.splits)
  show ?thesis using f(3) c cl again by (simp add: f(1))
qed

theorem open_failure_keeps_streams_witness:
  "fst (open_conn (fresh (\<lambda>n. DialTimedOut)) 0)
     = Inl (ClientTimeoutError (lit ''Timeout connecting to 10.0.0.5:10001''))
   \<and> reader (conns (snd (open_conn (fresh (\<lambda>n. DialTimedOut)) 0)) 0) = None
   \<and> writer (conns (snd (open_conn (fresh (\<lambda>n. DialTimedOut)) 0)) 0) = None
   \<and> closed (conns (snd (open_conn (fresh (\<lambda>n. DialTimedOut)) 0)) 0)
   \<and> dials (snd (open_conn (fresh (\<lambda>n. DialTimedOut)) 0)) = 1"
proof -
  have run: "open_conn (fresh (\<lambda>n. DialTimedOut)) 0
      = (Inl (ClientTimeoutError (lit ''Timeout connecting to 10.0.0.5:10001'')),
         snd (open_conn (fresh (\<lambda>n. DialTimedOut)) 0))"
    by (simp add: open_conn_def fresh_def idle_connection_def Let_def py_str_int_def
        digits.simps lit_def expires_at_once_def)
  have before: "reader (conns (fresh (\<lambda>n. DialTimedOut)) 0) = None"
    "writer (conns (fresh (\<lambda>n. DialTimedOut)) 0) = None"
    "dials (fresh (\<lambda>n. DialTimedOut)) = 0"
    by (simp_all add: fresh_def idle_connection_def)
  from open_failure_keeps_streams [OF run] before run show ?thesis
    by (metis One_nat_def add.left_neutral fst_conv plus_1_eq_Suc)
qed

section \<open>Facts about requests\<close>

lemma exchange_accepts:
  assumes "exchange s conn request = Some (Inr ls, s')"
  shows "\<exists>l. ls = [l] \<and> \<not> is_event l \<and> l \<noteq> lit ''257''"
proof (cases "write_conn s conn (request @ [10])")
  case (Pair r s1)
  show ?thesis
  proof (cases r)
    case (Inl e)
    with assms Pair show ?thesis by (simp add: exchange_def)
  next
    case (Inr u)
    with assms Pair have "read_response s1 conn [] = Some (Inr ls, s')"
      by (simp add: exchange_def)
    from read_response_accepts [OF this] show ?thesis by simp
  qed
qed

lemma raw_request_accepts:
  assumes "raw_request s request conn_arg = Some (Inr ls, s')"
  shows "\<exists>l. ls = [l] \<and> \<not> is_event l \<and> l \<noteq> lit ''257''"
proof -
  from assms obtain s2 conn s3 where "exchange s2 conn request = Some (Inr ls, s3)"
    by (auto simp: raw_request_def split: option.splits sum.splits prod.splits)
  then show ?thesis by (rule exchange_accepts)
qed

lemma raw_request_from_entry:
  assumes "loop_entry s request conn_arg = Some (conn, sl)"
  shows "raw_request s request conn_arg =
           (case read_response sl conn [] of
              None \<Rightarrow> None
            | Some (res, s3) \<Rightarrow> Some (res, release s3 CommandLock))"
  using assms
  by (auto simp: loop_entry_def raw_request_def exchange_def
      split: option.splits sum.splits prod.splits)

lemma command_from_line:
  assumes "raw_request s (build_request encode cmd params fq) conn_arg = Some (Inr [l], s')"
  shows "command encode tokenize s cmd params fq conn_arg =
           (case tokenize l of
              Inl e \<Rightarrow> Some (Inl e, s')
            | Inr [] \<Rightarrow> Some (Inl (Propagated ValueError), s')
            | Inr (c # args) \<Rightarrow>
                Some (Inr \<lparr>r_command = drop 2 c, r_args = args, r_data = []\<rparr>, s'))"
  using assms by (simp add: command_def Let_def split: sum.splits list.splits)

lemma command_success:
  assumes "command encode tokenize s cmd params fq conn_arg = Some (Inr resp, s')"
  shows "\<exists>l c. raw_request s (build_request encode cmd params fq) conn_arg = Some (Inr [l], s')
            \<and> \<not> is_event l \<and> l \<noteq> lit ''257''
            \<and> tokenize l = Inr (c # r_args resp)
            \<and> r_command resp = drop 2 c \<and> r_data resp = []"
proof -
  from assms obtain ls where
    rr: "raw_request s (build_request encode cmd params fq) conn_arg = Some (Inr ls, s')"
    by (auto simp: command_def Let_def split: option.splits sum.splits prod.splits if_splits
        list.splits)
  from raw_request_accepts [OF rr] obtain l where
    l: "ls = [l]" "\<not> is_event l" "l \<noteq> lit ''257''" by blast
  from assms command_from_line [of s encode cmd params fq conn_arg l s' tokenize] rr l
  show ?thesis
    by (auto split: sum.splits list.splits)
qed

lemma line_read_accept:
  assumes "loop_entry s request conn_arg = Some (conn, sl)"
    and "line_read k sl conn = Some (line, s1)"
    and "rstrip line \<noteq> lit ''257''" and "\<not> is_event (rstrip line)"
  shows "raw_request s request conn_arg = Some (Inr [rstrip line], release s1 CommandLock)"
proof -
  from line_read_first [OF assms(2)] obtain s0 where
    r: "readuntil s0 conn [0x0D] (Some (read_timeout s0)) = Some (Inr line, s1)"
    and same: "\<And>got. read_response sl conn got = read_response s0 conn got" by blast
  have "read_response sl conn [] = Some (Inr [rstrip line], s1)"
    using read_response_accept [OF r assms(3,4), of "[]"] same by simp
  with raw_request_from_entry [OF assms(1)] show ?thesis by simp
qed

section \<open>Evaluating the example runs\<close>

lemmas run_defs =
  get_connection_def acquire_def release_def locked_def set_locked_def fresh_def
  closed_def idle_connection_def open_conn_def serving_def Let_def exchange_def
  write_conn_def encodable_def readuntil_def wait_for_readuntil_def expires_at_once_def
  deliver_def quiet_def buffer_limit_def loop_entry_def listening_def attached_def

lemmas text_defs =
  ascii_def lit_def rstrip_def py_isspace_def is_event_def startswith_def

lemma vgl_request: "build_request encode_params (lit ''VGL'') [PInt 12] False = lit ''VGL 12'' @ [13]"
  by (simp add: build_request_def encode_params_def encode_param_def py_str_int_def
      digits.simps lit_def)

lemma silent_run:
  "\<exists>s'. raw_request (fresh (serving [])) (lit ''VGL 12'' @ [13]) None
           = Some (Inl (ClientTimeoutError []), s')"
  apply (simp add: raw_request_def run_defs text_defs)
  apply (subst read_response.simps)
  apply (simp add: run_defs text_defs)
  done



section \<open>Event lines are discarded\<close>

text \<open>
  Claim C1, as amended. Whenever a round of the read loop of a request reads a line that,
  with its trailing white space removed, begins with one of the prefixes \<open>S:\<close>, \<open>L:\<close>, \<open>LE\<close>
  or \<open>LC\<close>, the line is dropped and reading goes on: the loop continues from the state
  after that line with the lines collected so far unchanged, and the request ends as
  the reading from there ends. No line that \<open>raw_request\<close> returns is an event line, and
  a response returned by \<open>command\<close> has no data lines and takes its command name and
  its arguments from the tokens of a line that is not an event line.
\<close>

theorem event_lines_discarded:
  "(loop_entry s request conn_arg = Some (conn, sl) \<and> line_read k sl conn = Some (line, s1)
      \<and> is_event (rstrip line)
    \<longrightarrow> read_response sl conn got = read_response s1 conn got
        \<and> raw_request s request conn_arg =
            (case read_response s1 conn [] of
               None \<Rightarrow> None
             | Some (res, s3) \<Rightarrow> Some (res, release s3 CommandLock)))
   \<and> (raw_request s request conn_arg = Some (Inr ls, s') \<longrightarrow> (\<forall>l \<in> set ls. \<not> is_event l))
   \<and> (command encode tokenize s cmd params fq conn_arg = Some (Inr resp, s')
      \<longrightarrow> r_data resp = []
          \<and> (\<exists>l c. \<not> is_event l \<and> tokenize l = Inr (c # r_args resp)
                    \<and> r_command resp = drop 2 c))"
proof (intro conjI impI)
  assume a: "loop_entry s request conn_arg = Some (conn, sl) \<and> line_read k sl conn = Some (line, s1)
      \<and> is_event (rstrip line)"
  then have step: "\<And>got. read_response sl conn got = read_response s1 conn got"
    using line_read_continue by blast
  show "read_response sl conn got = read_response s1 conn got" by (rule step)
  from a have "loop_entry s request conn_arg = Some (conn, sl)" by simp
  from raw_request_from_entry [OF this]
  show "raw_request s request conn_arg =
            (case read_response s1 conn [] of
               None \<Rightarrow> None
             | Some (res, s3) \<Rightarrow> Some (res, release s3 CommandLock))"
    by (simp add: step)
next
  assume "raw_request s request conn_arg = Some (Inr ls, s')"
  from raw_request_accepts [OF this] show "\<forall>l \<in> set ls. \<not> is_event l" by auto
next
  assume c: "command encode tokenize s cmd params fq conn_arg = Some (Inr resp, s')"
  from command_success [OF c] show "r_data resp = []" by blast
  from command_success [OF c]
  show "\<exists>l c. \<not> is_event l \<and> tokenize l = Inr (c # r_args resp) \<and> r_command resp = drop 2 c"
    by blast
qed

theorem event_lines_discarded_witness:
  "map_option fst (command encode_params tokenize_response (fresh (serving reply_after_event))
       (lit ''VGL'') [PInt 12] False None)
     = Some (Inr \<lparr>r_command = lit ''GVL'', r_args = [lit ''45''], r_data = []\<rparr>)
   \<and> map_option fst (line_read 0
         (snd (the (loop_entry (fresh (serving reply_after_event)) (lit ''VGL 12'' @ [13]) None)))
         0)
     = Some (lit ''S:1 2 3'' @ [13])
   \<and> is_event (rstrip (lit ''S:1 2 3'' @ [13]))"
proof -
  define s0 where "s0 = fresh (serving reply_after_event)"
  define sl where "sl = snd (the (loop_entry s0 (lit ''VGL 12'' @ [13]) None))"
  define s1 where "s1 = snd (the (line_read 0 sl 0))"
  define s2 where "s2 = snd (the (readuntil s1 0 [0x0D] (Some (read_timeout s1))))"
  have entry: "loop_entry s0 (lit ''VGL 12'' @ [13]) None = Some (0, sl)"
    unfolding sl_def s0_def by (simp add: run_defs text_defs)
  have lr: "line_read 0 sl 0 = Some (lit ''S:1 2 3'' @ [13], s1)"
    unfolding s1_def sl_def s0_def by (simp add: run_defs text_defs reply_after_event_def)
  have ev: "is_event (rstrip (lit ''S:1 2 3'' @ [13]))"
    by (simp add: text_defs)
  have nxt: "readuntil s1 0 [0x0D] (Some (read_timeout s1)) = Some (Inr (lit ''R:GVL 45'' @ [13]), s2)"
    unfolding s2_def s1_def sl_def s0_def
    by (simp add: run_defs text_defs reply_after_event_def)
  have acc: "rstrip (lit ''R:GVL 45'' @ [13]) = lit ''R:GVL 45''"
    "lit ''R:GVL 45'' \<noteq> lit ''257''" "\<not> is_event (lit ''R:GVL 45'')"
    by (simp_all add: text_defs)
  have loop: "read_response s1 0 [] = Some (Inr [lit ''R:GVL 45''], s2)"
    using read_response_accept [OF nxt, of "[]"] acc by simp
  have tok: "tokenize_response (lit ''R:GVL 45'') = Inr [lit ''R:GVL'', lit ''45'']"
    by (simp add: tokenize_response_def text_defs)
  from event_lines_discarded [of s0 "lit ''VGL 12'' @ [13]" None 0 sl 0 "lit ''S:1 2 3'' @ [13]" s1]
    entry lr ev loop
  have rr: "raw_request s0 (lit ''VGL 12'' @ [13]) None
      = Some (Inr [lit ''R:GVL 45''], release s2 CommandLock)"
    by simp
  have rr': "raw_request s0 (build_request encode_params (lit ''VGL'') [PInt 12] False) None
      = Some (Inr [lit ''R:GVL 45''], release s2 CommandLock)"
    using rr by (simp only: vgl_request)
  have "command encode_params tokenize_response s0 (lit ''VGL'') [PInt 12] False None
      = Some (Inr \<lparr>r_command = lit ''GVL'', r_args = [lit ''45''], r_data = []\<rparr>,
              release s2 CommandLock)"
    using command_from_line [OF rr', of tokenize_response] tok
    by (simp add: lit_def)
  then show ?thesis
    using lr ev by (simp add: s0_def sl_def)
qed

theorem leading_white_space_event_counterexample:
  "map_option fst (line_read 1
         (snd (the (loop_entry (fresh (serving crlf_events_then_reply))
                      (lit ''VGL 12'' @ [13]) None)))
         0)
     = Some ([10] @ lit ''S:4 5 6'' @ [13])
   \<and> is_event (dropWhile py_isspace (rstrip ([10] @ lit ''S:4 5 6'' @ [13])))
   \<and> map_option fst (raw_request (fresh (serving crlf_events_then_reply))
        (lit ''VGL 12'' @ [13]) None)
     = Some (Inr [[10] @ lit ''S:4 5 6''])
   \<and> map_option fst (command encode_params tokenize_response
        (fresh (serving crlf_events_then_reply)) (lit ''VGL'') [PInt 12] False None)
     = Some (Inr \<lparr>r_command = lit ''4'', r_args = [lit ''5'', lit ''6''], r_data = []\<rparr>)"
proof -
  define s0 where "s0 = fresh (serving crlf_events_then_reply)"
  define sl where "sl = snd (the (loop_entry s0 (lit ''VGL 12'' @ [13]) None))"
  define s1 where "s1 = snd (the (line_read 1 sl 0))"
  have entry: "loop_entry s0 (lit ''VGL 12'' @ [13]) None = Some (0, sl)"
    unfolding sl_def s0_def by (simp add: run_defs text_defs)
  have lr: "line_read 1 sl 0 = Some ([10] @ lit ''S:4 5 6'' @ [13], s1)"
    unfolding s1_def sl_def s0_def
    by (simp add: run_defs text_defs crlf_events_then_reply_def)
  have t: "rstrip ([10] @ lit ''S:4 5 6'' @ [13]) = [10] @ lit ''S:4 5 6''"
    "rstrip ([10] @ lit ''S:4 5 6'' @ [13]) \<noteq> lit ''257''"
    "\<not> is_event (rstrip ([10] @ lit ''S:4 5 6'' @ [13]))"
    "is_event (dropWhile py_isspace (rstrip ([10] @ lit ''S:4 5 6'' @ [13])))"
    by (simp_all add: text_defs)
  have rr: "raw_request s0 (lit ''VGL 12'' @ [13]) None
      = Some (Inr [[10] @ lit ''S:4 5 6''], release s1 CommandLock)"
    using line_read_accept [OF entry lr t(2,3)] t(1) by simp
  have rr': "raw_request s0 (build_request encode_params (lit ''VGL'') [PInt 12] False) None
      = Some (Inr [[10] @ lit ''S:4 5 6''], release s1 CommandLock)"
    using rr by (simp only: vgl_request)
  have tok: "tokenize_response ([10] @ lit ''S:4 5 6'') = Inr [lit ''S:4'', lit ''5'', lit ''6'']"
    by (simp add: tokenize_response_def text_defs)
  have cm: "command encode_params tokenize_response s0 (lit ''VGL'') [PInt 12] False None
      = Some (Inr \<lparr>r_command = lit ''4'', r_args = [lit ''5'', lit ''6''], r_data = []\<rparr>,
              release s1 CommandLock)"
    using command_from_line [OF rr', of tokenize_response] tok by (simp add: lit_def)
  from lr t(4) rr cm show ?thesis by (simp add: s0_def sl_def)
qed

section \<open>The error sentinel\<close>

text \<open>
  Claim C2, as amended. If a round of the read loop of a request reads a line that, with
  its trailing white space removed, is the text \<open>257\<close>, the request ends at once: \<open>raw_request\<close>
  fails with the command error whose message carries the code 257, the command lock
  having been released, and so does \<open>command\<close>, which returns no response.
\<close>

theorem error_sentinel_aborts:
  assumes "loop_entry s request conn_arg = Some (conn, sl)"
    and "line_read k sl conn = Some (line, s1)"
    and "rstrip line = lit ''257''"
  shows "raw_request s request conn_arg
           = Some (Inl (CommandError (lit ''(Error code 257)'')), release s1 CommandLock)
       \<and> (request = build_request encode cmd params fq
          \<longrightarrow> command encode tokenize s cmd params fq conn_arg
                = Some (Inl (CommandError (lit ''(Error code 257)'')), release s1 CommandLock))"
proof -
  from line_read_first [OF assms(2)] obtain s0 where
    r: "readuntil s0 conn [0x0D] (Some (read_timeout s0)) = Some (Inr line, s1)"
    and same: "\<And>got. read_response sl conn got = read_response s0 conn got" by blast
  have "read_response sl conn [] = Some (Inl (CommandError (lit ''(Error code 257)'')), s1)"
    using read_response_257 [OF r assms(3)] same by simp
  with raw_request_from_entry [OF assms(1)]
  have rr: "raw_request s request conn_arg
           = Some (Inl (CommandError (lit ''(Error code 257)'')), release s1 CommandLock)"
    by simp
  then show ?thesis by (auto simp: command_def Let_def)
qed

theorem error_sentinel_aborts_witness:
  "map_option fst (raw_request (fresh (serving error_after_event)) (lit ''VGL 12'' @ [13]) None)
     = Some (Inl (CommandError (lit ''(Error code 257)'')))
   \<and> map_option fst (command encode_params tokenize_response (fresh (serving error_after_event))
        (lit ''VGL'') [PInt 12] False None)
     = Some (Inl (CommandError (lit ''(Error code 257)'')))"
proof -
  define s0 where "s0 = fresh (serving error_after_event)"
  define sl where "sl = snd (the (loop_entry s0 (lit ''VGL 12'' @ [13]) None))"
  define s1 where "s1 = snd (the (line_read 1 sl 0))"
  have entry: "loop_entry s0 (lit ''VGL 12'' @ [13]) None = Some (0, sl)"
    unfolding sl_def s0_def by (simp add: run_defs text_defs)
  have lr: "line_read 1 sl 0 = Some (lit ''257'' @ [13], s1)"
    unfolding s1_def sl_def s0_def
    by (simp add: run_defs text_defs error_after_event_def)
  have t: "rstrip (lit ''257'' @ [13]) = lit ''257''"
    by (simp add: text_defs)
  note e = error_sentinel_aborts [OF entry lr t, of encode_params "lit ''VGL''" "[PInt 12]" False
      tokenize_response]
  from e show ?thesis by (simp add: s0_def vgl_request)
qed

theorem leading_white_space_sentinel_counterexample:
  "map_option fst (line_read 1
         (snd (the (loop_entry (fresh (serving crlf_event_then_error))
                      (lit ''VGL 12'' @ [13]) None)))
         0)
     = Some ([10] @ lit ''257'' @ [13])
   \<and> dropWhile py_isspace (rstrip ([10] @ lit ''257'' @ [13])) = lit ''257''
   \<and> map_option fst (raw_request (fresh (serving crlf_event_then_error))
        (lit ''VGL 12'' @ [13]) None)
     = Some (Inr [[10] @ lit ''257''])
   \<and> map_option fst (command encode_params tokenize_response
        (fresh (serving crlf_event_then_error)) (lit ''VGL'') [PInt 12] False None)
     = Some (Inr \<lparr>r_command = lit ''7'', r_args = [], r_data = []\<rparr>)"
proof -
  define s0 where "s0 = fresh (serving crlf_event_then_error)"
  define sl where "sl = snd (the (loop_entry s0 (lit ''VGL 12'' @ [13]) None))"
  define s1 where "s1 = snd (the (line_read 1 sl 0))"
  have entry: "loop_entry s0 (lit ''VGL 12'' @ [13]) None = Some (0, sl)"
    unfolding sl_def s0_def by (simp add: run_defs text_defs)
  have lr: "line_read 1 sl 0 = Some ([10] @ lit ''257'' @ [13], s1)"
    unfolding s1_def sl_def s0_def
    by (simp add: run_defs text_defs crlf_event_then_error_def)
  have t: "rstrip ([10] @ lit ''257'' @ [13]) = [10] @ lit ''257''"
    "rstrip ([10] @ lit ''257'' @ [13]) \<noteq> lit ''257''"
    "\<not> is_event (rstrip ([10] @ lit ''257'' @ [13]))"
    "dropWhile py_isspace (rstrip ([10] @ lit ''257'' @ [13])) = lit ''257''"
    by (simp_all add: text_defs)
  have rr: "raw_request s0 (lit ''VGL 12'' @ [13]) None
      = Some (Inr [[10] @ lit ''257''], release s1 CommandLock)"
    using line_read_accept [OF entry lr t(2,3)] t(1) by simp
  have rr': "raw_request s0 (build_request encode_params (lit ''VGL'') [PInt 12] False) None
      = Some (Inr [[10] @ lit ''257''], release s1 CommandLock)"
    using rr by (simp only: vgl_request)
  have tok: "tokenize_response ([10] @ lit ''257'') = Inr [lit ''257'']"
    by (simp add: tokenize_response_def text_defs)
  have cm: "command encode_params tokenize_response s0 (lit ''VGL'') [PInt 12] False None
      = Some (Inr \<lparr>r_command = lit ''7'', r_args = [], r_data = []\<rparr>,
              release s1 CommandLock)"
    using command_from_line [OF rr', of tokenize_response] tok by (simp add: lit_def)
  from lr t(4) rr cm show ?thesis by (simp add: s0_def sl_def)
qed

section \<open>One line per response\<close>

text \<open>
  Claim C4, as amended. The first line that is neither the error sentinel nor an event
  line ends the read loop: \<open>raw_request\<close> returns that one line, with its trailing white
  space removed, and leaves whatever follows unread; every successful \<open>raw_request\<close>
  returns exactly one line, and every response of \<open>command\<close> has an empty list of data
  lines.
\<close>

theorem first_accepted_line_only:
  "(loop_entry s request conn_arg = Some (conn, sl) \<and> line_read k sl conn = Some (line, s1)
      \<and> rstrip line \<noteq> lit ''257'' \<and> \<not> is_event (rstrip line)
    \<longrightarrow> raw_request s request conn_arg = Some (Inr [rstrip line], release s1 CommandLock))
   \<and> (raw_request s request conn_arg = Some (Inr ls, s') \<longrightarrow> length ls = 1)
   \<and> (command encode tokenize s cmd params fq conn_arg = Some (Inr resp, s')
      \<longrightarrow> r_data resp = [])"
proof (intro conjI impI)
  assume "loop_entry s request conn_arg = Some (conn, sl) \<and> line_read k sl conn = Some (line, s1)
      \<and> rstrip line \<noteq> lit ''257'' \<and> \<not> is_event (rstrip line)"
  then show "raw_request s request conn_arg = Some (Inr [rstrip line], release s1 CommandLock)"
    using line_read_accept by blast
next
  assume "raw_request s request conn_arg = Some (Inr ls, s')"
  from raw_request_accepts [OF this] show "length ls = 1" by auto
next
  assume "command encode tokenize s cmd params fq conn_arg = Some (Inr resp, s')"
  from command_success [OF this] show "r_data resp = []" by blast
qed

theorem first_accepted_line_only_witness:
  "map_option fst (raw_request (fresh (serving data_then_reply)) (lit ''VGL 12'' @ [13]) None)
     = Some (Inr [lit ''D1''])
   \<and> length [lit ''D1''] = 1"
proof -
  define s0 where "s0 = fresh (serving data_then_reply)"
  define sl where "sl = snd (the (loop_entry s0 (lit ''VGL 12'' @ [13]) None))"
  define s1 where "s1 = snd (the (line_read 0 sl 0))"
  have entry: "loop_entry s0 (lit ''VGL 12'' @ [13]) None = Some (0, sl)"
    unfolding sl_def s0_def by (simp add: run_defs text_defs)
  have lr: "line_read 0 sl 0 = Some (lit ''D1'' @ [13], s1)"
    unfolding s1_def sl_def s0_def
    by (simp add: run_defs text_defs data_then_reply_def)
  have t: "rstrip (lit ''D1'' @ [13]) = lit ''D1''" "rstrip (lit ''D1'' @ [13]) \<noteq> lit ''257''"
    "\<not> is_event (rstrip (lit ''D1'' @ [13]))"
    by (simp_all add: text_defs)
  from first_accepted_line_only [of s0 "lit ''VGL 12'' @ [13]" None 0 sl 0 "lit ''D1'' @ [13]" s1]
    entry lr t
  have rr: "raw_request s0 (lit ''VGL 12'' @ [13]) None
      = Some (Inr [lit ''D1''], release s1 CommandLock)"
    by simp
  from first_accepted_line_only [of s0 "lit ''VGL 12'' @ [13]" None 0 sl 0 "lit ''D1'' @ [13]" s1
      "[lit ''D1'']" "release s1 CommandLock"] rr
  have "length [lit ''D1''] = 1" by blast
  with rr show ?thesis by (simp add: s0_def)
qed

theorem leading_data_line_counterexample:
  "map_option fst (raw_request (fresh (serving data_then_reply)) (lit ''VGL 12'' @ [13]) None)
     = Some (Inr [lit ''D1''])
   \<and> map_option fst (command encode_params tokenize_response (fresh (serving data_then_reply))
        (lit ''VGL'') [PInt 12] False None)
     = Some (Inr \<lparr>r_command = [], r_args = [], r_data = []\<rparr>)
   \<and> map_option fst
        (readuntil
           (snd (the (raw_request (fresh (serving data_then_reply)) (lit ''VGL 12'' @ [13]) None)))
           0 [0x0D] (Some 60))
     = Some (Inr (lit ''R:GVL 45'' @ [13]))"
proof -
  define s0 where "s0 = fresh (serving data_then_reply)"
  define sl where "sl = snd (the (loop_entry s0 (lit ''VGL 12'' @ [13]) None))"
  define s1 where "s1 = snd (the (line_read 0 sl 0))"
  have entry: "loop_entry s0 (lit ''VGL 12'' @ [13]) None = Some (0, sl)"
    unfolding sl_def s0_def by (simp add: run_defs text_defs)
  have lr: "line_read 0 sl 0 = Some (lit ''D1'' @ [13], s1)"
    unfolding s1_def sl_def s0_def
    by (simp add: run_defs text_defs data_then_reply_def)
  have t: "rstrip (lit ''D1'' @ [13]) = lit ''D1''" "rstrip (lit ''D1'' @ [13]) \<noteq> lit ''257''"
    "\<not> is_event (rstrip (lit ''D1'' @ [13]))"
    by (simp_all add: text_defs)
  have rr: "raw_request s0 (lit ''VGL 12'' @ [13]) None
      = Some (Inr [lit ''D1''], release s1 CommandLock)"
    using line_read_accept [OF entry lr t(2,3)] t(1) by simp
  have rr': "raw_request s0 (build_request encode_params (lit ''VGL'') [PInt 12] False) None
      = Some (Inr [lit ''D1''], release s1 CommandLock)"
    using rr by (simp only: vgl_request)
  have tok: "tokenize_response (lit ''D1'') = Inr [lit ''D1'']"
    by (simp add: tokenize_response_def text_defs)
  have cm: "command encode_params tokenize_response s0 (lit ''VGL'') [PInt 12] False None
      = Some (Inr \<lparr>r_command = [], r_args = [], r_data = []\<rparr>, release s1 CommandLock)"
    using command_from_line [OF rr', of tokenize_response] tok by (simp add: lit_def)
  have pending: "map_option fst (readuntil (release s1 CommandLock) 0 [0x0D] (Some 60))
      = Some (Inr (lit ''R:GVL 45'' @ [13]))"
    unfolding s1_def sl_def s0_def
    by (simp add: run_defs text_defs data_then_reply_def)
  from rr cm pending show ?thesis by (simp add: s0_def)
qed

section \<open>Decoding the response\<close>

text \<open>
  Claim C6, as amended. A response returned by \<open>command\<close> is decoded from the one line
  that \<open>raw_request\<close> returned for the request that was built, a line that is neither an
  event line nor the error sentinel: its command name is the first token of that line
  without its first two characters, its arguments are the remaining tokens of that line
  in order, and it has no data lines. That line is the first one the read loop accepts:
  when the first line that is neither the error sentinel nor an event line has the tokens
  \<open>c0 # args\<close>, \<open>command\<close> returns the response with command name \<open>drop 2 c0\<close>,
  arguments \<open>args\<close> and no data lines, whatever the controller sends after that line.
\<close>

theorem response_decoding:
  "(command encode tokenize s cmd params fq conn_arg = Some (Inr resp, s')
    \<longrightarrow> (\<exists>l c. raw_request s (build_request encode cmd params fq) conn_arg
                  = Some (Inr [l], s')
              \<and> \<not> is_event l \<and> l \<noteq> lit ''257''
              \<and> tokenize l = Inr (c # r_args resp)
              \<and> r_command resp = drop 2 c \<and> r_data resp = []))
   \<and> (loop_entry s (build_request encode cmd params fq) conn_arg = Some (conn, sl)
      \<and> line_read k sl conn = Some (line, s1)
      \<and> rstrip line \<noteq> lit ''257'' \<and> \<not> is_event (rstrip line)
      \<and> tokenize (rstrip line) = Inr (c0 # args)
    \<longrightarrow> command encode tokenize s cmd params fq conn_arg
          = Some (Inr \<lparr>r_command = drop 2 c0, r_args = args, r_data = []\<rparr>,
                  release s1 CommandLock))"
proof (intro conjI impI)
  assume "command encode tokenize s cmd params fq conn_arg = Some (Inr resp, s')"
  from command_success [OF this]
  show "\<exists>l c. raw_request s (build_request encode cmd params fq) conn_arg
                  = Some (Inr [l], s')
              \<and> \<not> is_event l \<and> l \<noteq> lit ''257''
              \<and> tokenize l = Inr (c # r_args resp)
              \<and> r_command resp = drop 2 c \<and> r_data resp = []" .
next
  assume a: "loop_entry s (build_request encode cmd params fq) conn_arg = Some (conn, sl)
      \<and> line_read k sl conn = Some (line, s1)
      \<and> rstrip line \<noteq> lit ''257'' \<and> \<not> is_event (rstrip line)
      \<and> tokenize (rstrip line) = Inr (c0 # args)"
  then have "raw_request s (build_request encode cmd params fq) conn_arg
      = Some (Inr [rstrip line], release s1 CommandLock)"
    using line_read_accept by blast
  from command_from_line [OF this, of tokenize] a
  show "command encode tokenize s cmd params fq conn_arg
          = Some (Inr \<lparr>r_command = drop 2 c0, r_args = args, r_data = []\<rparr>,
                  release s1 CommandLock)"
    by simp
qed

theorem response_decoding_witness:
  "map_option fst (command encode_params tokenize_response (fresh (serving level_reply))
        (lit ''VGL'') [PInt 12] False None)
     = Some (Inr \<lparr>r_command = lit ''GVL'', r_args = [lit ''67''], r_data = []\<rparr>)
   \<and> map_option fst (raw_request (fresh (serving level_reply))
        (build_request encode_params (lit ''VGL'') [PInt 12] False) None)
     = Some (Inr [lit ''R:GVL 67''])
   \<and> tokenize_response (lit ''R:GVL 67'') = Inr [lit ''R:GVL'', lit ''67'']"
proof -
  define s0 where "s0 = fresh (serving level_reply)"
  define sl where "sl = snd (the (loop_entry s0 (lit ''VGL 12'' @ [13]) None))"
  define s1 where "s1 = snd (the (line_read 0 sl 0))"
  have entry: "loop_entry s0 (build_request encode_params (lit ''VGL'') [PInt 12] False) None
      = Some (0, sl)"
    unfolding sl_def s0_def vgl_request by (simp add: run_defs text_defs)
  have lr: "line_read 0 sl 0 = Some (lit ''R:GVL 67'' @ [13], s1)"
    unfolding s1_def sl_def s0_def
    by (simp add: run_defs text_defs level_reply_def)
  have t: "rstrip (lit ''R:GVL 67'' @ [13]) \<noteq> lit ''257''"
    "\<not> is_event (rstrip (lit ''R:GVL 67'' @ [13]))"
    "tokenize_response (rstrip (lit ''R:GVL 67'' @ [13])) = Inr [lit ''R:GVL'', lit ''67'']"
    by (simp_all add: text_defs tokenize_response_def)
  from response_decoding [of encode_params tokenize_response s0 "lit ''VGL''" "[PInt 12]" False
      None _ _ 0 sl 0 "lit ''R:GVL 67'' @ [13]" s1 "lit ''R:GVL''" "[lit ''67'']"] entry lr t
  have cm: "command encode_params tokenize_response s0 (lit ''VGL'') [PInt 12] False None
      = Some (Inr \<lparr>r_command = drop 2 (lit ''R:GVL''), r_args = [lit ''67''], r_data = []\<rparr>,
              release s1 CommandLock)"
    by simp
  from response_decoding [where encode = encode_params and tokenize = tokenize_response
      and s = s0 and cmd = "lit ''VGL''" and params = "[PInt 12]" and fq = False
      and conn_arg = None and s' = "release s1 CommandLock"
      and resp = "\<lparr>r_command = drop 2 (lit ''R:GVL''), r_args = [lit ''67''], r_data = []\<rparr>",
      THEN conjunct1] cm
  obtain l c where rt:
    "raw_request s0 (build_request encode_params (lit ''VGL'') [PInt 12] False) None
       = Some (Inr [l], release s1 CommandLock)"
    "tokenize_response l = Inr [c, lit ''67'']" "drop 2 (lit ''R:GVL'') = drop 2 c"
    by auto
  have "raw_request s0 (build_request encode_params (lit ''VGL'') [PInt 12] False) None
       = Some (Inr [rstrip (lit ''R:GVL 67'' @ [13])], release s1 CommandLock)"
    using line_read_accept [OF entry lr t(1,2)] .
  with rt(1) have "l = lit ''R:GVL 67''" by (simp add: text_defs)
  with rt(1) cm t(3) show ?thesis by (simp add: s0_def text_defs)
qed

theorem data_line_decoded_counterexample:
  "map_option fst (command encode_params tokenize_response
        (fresh (serving data_words_then_reply)) (lit ''VGL'') [PInt 12] False None)
     = Some (Inr \<lparr>r_command = [], r_args = [lit ''x''], r_data = []\<rparr>)
   \<and> map_option fst
        (readuntil
           (snd (the (command encode_params tokenize_response
                        (fresh (serving data_words_then_reply)) (lit ''VGL'') [PInt 12] False
                        None)))
           0 [0x0D] (Some 60))
     = Some (Inr (lit ''R:GVL 45'' @ [13]))"
proof -
  define s0 where "s0 = fresh (serving data_words_then_reply)"
  define sl where "sl = snd (the (loop_entry s0 (lit ''VGL 12'' @ [13]) None))"
  define s1 where "s1 = snd (the (line_read 0 sl 0))"
  have entry: "loop_entry s0 (lit ''VGL 12'' @ [13]) None = Some (0, sl)"
    unfolding sl_def s0_def by (simp add: run_defs text_defs)
  have lr: "line_read 0 sl 0 = Some (lit ''D1 x'' @ [13], s1)"
    unfolding s1_def sl_def s0_def
    by (simp add: run_defs text_defs data_words_then_reply_def)
  have t: "rstrip (lit ''D1 x'' @ [13]) = lit ''D1 x''"
    "rstrip (lit ''D1 x'' @ [13]) \<noteq> lit ''257''"
    "\<not> is_event (rstrip (lit ''D1 x'' @ [13]))"
    by (simp_all add: text_defs)
  have rr: "raw_request s0 (lit ''VGL 12'' @ [13]) None
      = Some (Inr [lit ''D1 x''], release s1 CommandLock)"
    using line_read_accept [OF entry lr t(2,3)] t(1) by simp
  have rr': "raw_request s0 (build_request encode_params (lit ''VGL'') [PInt 12] False) None
      = Some (Inr [lit ''D1 x''], release s1 CommandLock)"
    using rr by (simp only: vgl_request)
  have tok: "tokenize_response (lit ''D1 x'') = Inr [lit ''D1'', lit ''x'']"
    by (simp add: tokenize_response_def text_defs)
  have cm: "command encode_params tokenize_response s0 (lit ''VGL'') [PInt 12] False None
      = Some (Inr \<lparr>r_command = [], r_args = [lit ''x''], r_data = []\<rparr>,
              release s1 CommandLock)"
    using command_from_line [OF rr', of tokenize_response] tok by (simp add: lit_def)
  have pending: "map_option fst (readuntil (release s1 CommandLock) 0 [0x0D] (Some 60))
      = Some (Inr (lit ''R:GVL 45'' @ [13]))"
    unfolding s1_def sl_def s0_def
    by (simp add: run_defs text_defs data_words_then_reply_def)
  from cm pending show ?thesis by (simp add: s0_def)
qed

section \<open>Locks and connect attempts\<close>

lemma write_conn_frame:
  assumes "write_conn s c m = (r, s')"
  shows "command_lock s' = command_lock s \<and> connection_lock s' = connection_lock s
       \<and> dials s' = dials s \<and> connection s' = connection s
       \<and> (trace s' = trace s \<or> trace s' = trace s @ [Sent m])"
  using assms
  by (auto simp: write_conn_def Let_def split: option.splits if_splits)

lemma exchange_frame:
  assumes "exchange s conn request = Some (res, s')"
  shows "command_lock s' = command_lock s \<and> connection_lock s' = connection_lock s
       \<and> dials s' = dials s \<and> connection s' = connection s
       \<and> (trace s' = trace s \<or> trace s' = trace s @ [Sent (request @ [10])])"
proof (cases "write_conn s conn (request @ [10])")
  case (Pair r s1)
  note w = write_conn_frame [OF Pair]
  show ?thesis
  proof (cases r)
    case (Inl e)
    with assms Pair have "s' = s1" by (simp add: exchange_def)
    with w show ?thesis by simp
  next
    case (Inr u)
    with assms Pair have "read_response s1 conn [] = Some (res, s')"
      by (simp add: exchange_def)
    from read_response_frame [OF this] obtain cs where "s' = s1\<lparr>conns := cs\<rparr>" by blast
    with w show ?thesis by auto
  qed
qed

lemma open_conn_closed:
  assumes "closed (conns s self)" and "open_conn s self = (ro, s2)"
  shows "dials s2 = dials s + 1"
    and "trace s2 = trace s @ [Dialled (host (conns s self)) (port (conns s self))]"
    and "connection_lock s2 = connection_lock s" and "command_lock s2 = command_lock s"
    and "connection s2 = connection s"
    and "ro = Inr () \<longrightarrow> \<not> closed (conns s2 self)"
proof -
  have shut: "\<not> (case writer (conns s self) of None \<Rightarrow> False | Some wr \<Rightarrow> \<not> is_closing wr)"
    using assms(1) by (simp add: closed_def split: option.splits)
  show "dials s2 = dials s + 1"
    and "trace s2 = trace s @ [Dialled (host (conns s self)) (port (conns s self))]"
    and "connection_lock s2 = connection_lock s" and "command_lock s2 = command_lock s"
    and "connection s2 = connection s"
    and "ro = Inr () \<longrightarrow> \<not> closed (conns s2 self)"
    using assms(2) shut
    by (cases "expires_at_once (conn_timeout (conns s self))"; cases "network s (dials s)";
        simp add: open_conn_def Let_def closed_def; fastforce)+
qed

lemma get_connection_result:
  assumes "get_connection s = Some (r, s1)"
  shows "\<not> connection_lock s \<and> \<not> connection_lock s1 \<and> command_lock s1 = command_lock s
       \<and> connection s1 = connection s
       \<and> dials s1 = dials s + (if closed (conns s (connection s)) then 1 else 0)
       \<and> trace s1 = trace s @ [Acquired ConnectionLock] @ dial_events s @ [Released ConnectionLock]
       \<and> (\<forall>c. r = Inr c \<longrightarrow> c = connection s \<and> \<not> closed (conns s1 c))"
proof -
  define s0 where "s0 = s\<lparr>connection_lock := True, trace := trace s @ [Acquired ConnectionLock]\<rparr>"
  have free: "\<not> connection_lock s"
    using assms by (auto simp: get_connection_def acquire_def locked_def split: if_splits)
  then have acq: "acquire s ConnectionLock = Some s0"
    by (simp add: acquire_def locked_def set_locked_def s0_def)
  have s0: "conns s0 = conns s" "connection s0 = connection s" "dials s0 = dials s"
    "command_lock s0 = command_lock s" "trace s0 = trace s @ [Acquired ConnectionLock]"
    by (simp_all add: s0_def)
  show ?thesis
  proof (cases "closed (conns s (connection s))")
    case False
    with assms acq s0 have "r = Inr (connection s)" "s1 = release s0 ConnectionLock"
      by (simp_all add: get_connection_def)
    then show ?thesis
      using free False s0 by (simp add: release_def set_locked_def dial_events_def)
  next
    case True
    obtain ro s2 where o: "open_conn s0 (connection s) = (ro, s2)"
      by (cases "open_conn s0 (connection s)")
    have shut: "closed (conns s0 (connection s))" using True s0 by simp
    note oc = open_conn_closed [OF shut o]
    from assms acq s0 True o have res: "s1 = release s2 ConnectionLock"
      "r = (case ro of Inl e \<Rightarrow> Inl e | Inr u \<Rightarrow> Inr (connection s2))"
      by (auto simp: get_connection_def split: sum.splits)
    have both: "conns s1 = conns s2" "\<not> connection_lock s1" "command_lock s1 = command_lock s2"
      "connection s1 = connection s2" "dials s1 = dials s2"
      "trace s1 = trace s2 @ [Released ConnectionLock]"
      by (simp_all add: res(1) release_def set_locked_def)
    have last: "\<forall>c. r = Inr c \<longrightarrow> c = connection s \<and> \<not> closed (conns s1 c)"
      using res(2) oc(5,6) s0(2) both(1) by (cases ro) auto
    show ?thesis
      using free True both oc s0 last by (simp add: dial_events_def)
  qed
qed


lemma raw_request_cases:
  assumes "raw_request s request conn_arg = Some (res, s')"
  shows "(\<exists>e. conn_arg = None \<and> res = Inl e \<and> get_connection s = Some (Inl e, s'))
       \<or> (\<exists>conn s1 s2 s3.
             (case conn_arg of Some c \<Rightarrow> Some (Inr c, s) | None \<Rightarrow> get_connection s)
               = Some (Inr conn, s1)
             \<and> acquire s1 CommandLock = Some s2
             \<and> exchange s2 conn request = Some (res, s3)
             \<and> s' = release s3 CommandLock)"
  using assms
  by (cases conn_arg)
     (auto simp: raw_request_def split: option.splits sum.splits prod.splits)

lemma raw_request_trace:
  assumes "raw_request s request conn_arg = Some (res, s')"
  shows "(\<exists>e. conn_arg = None \<and> res = Inl e \<and> get_connection s = Some (Inl e, s')
            \<and> trace s' = trace s @ [Acquired ConnectionLock] @ dial_events s
                           @ [Released ConnectionLock]
            \<and> command_lock s' = command_lock s
            \<and> dials s' = dials s + (if closed (conns s (connection s)) then 1 else 0))
       \<or> (\<exists>pre sent.
             pre = (case conn_arg of
                      Some c \<Rightarrow> []
                    | None \<Rightarrow> [Acquired ConnectionLock] @ dial_events s
                               @ [Released ConnectionLock])
             \<and> sent \<in> {[], [Sent (request @ [10])]}
             \<and> trace s' = trace s @ pre @ [Acquired CommandLock] @ sent
                            @ [Released CommandLock]
             \<and> \<not> command_lock s \<and> \<not> command_lock s'
             \<and> dials s' = dials s + (if conn_arg = None \<and> closed (conns s (connection s))
                                       then 1 else 0))"
  using raw_request_cases [OF assms]
proof (elim disjE exE conjE)
  fix e
  assume a: "conn_arg = None" "res = Inl e" "get_connection s = Some (Inl e, s')"
  from get_connection_result [OF a(3)] a show ?thesis by simp
next
  fix conn s1 s2 s3
  assume a: "(case conn_arg of Some c \<Rightarrow> Some (Inr c, s) | None \<Rightarrow> get_connection s)
               = Some (Inr conn, s1)"
    "acquire s1 CommandLock = Some s2" "exchange s2 conn request = Some (res, s3)"
    "s' = release s3 CommandLock"
  define pre where "pre = (case conn_arg of
                      Some c \<Rightarrow> []
                    | None \<Rightarrow> [Acquired ConnectionLock] @ dial_events s
                               @ [Released ConnectionLock])"
  have first: "trace s1 = trace s @ pre \<and> command_lock s1 = command_lock s
      \<and> dials s1 = dials s + (if conn_arg = None \<and> closed (conns s (connection s))
                                       then 1 else 0)"
  proof (cases conn_arg)
    case None
    with a(1) have "get_connection s = Some (Inr conn, s1)" by simp
    from get_connection_result [OF this] None show ?thesis by (simp add: pre_def)
  next
    case (Some c)
    with a(1) show ?thesis by (simp add: pre_def)
  qed
  from a(2) have second: "\<not> command_lock s1" "command_lock s2"
    "trace s2 = trace s1 @ [Acquired CommandLock]" "dials s2 = dials s1"
    by (auto simp: acquire_def locked_def set_locked_def split: if_splits)
  note third = exchange_frame [OF a(3)]
  from a(4) have fourth: "\<not> command_lock s'" "trace s' = trace s3 @ [Released CommandLock]"
    "dials s' = dials s3"
    by (simp_all add: release_def set_locked_def)
  define sent where "sent = (if trace s3 = trace s2 then [] else [Sent (request @ [10])])"
  from third have "trace s3 = trace s2 \<or> trace s3 = trace s2 @ [Sent (request @ [10])]"
    by blast
  then have sent: "sent \<in> {[], [Sent (request @ [10])]}" "trace s3 = trace s2 @ sent"
    by (auto simp: sent_def)
  have "pre = (case conn_arg of
                      Some c \<Rightarrow> []
                    | None \<Rightarrow> [Acquired ConnectionLock] @ dial_events s
                               @ [Released ConnectionLock])
             \<and> sent \<in> {[], [Sent (request @ [10])]}
             \<and> trace s' = trace s @ pre @ [Acquired CommandLock] @ sent
                            @ [Released CommandLock]
             \<and> \<not> command_lock s \<and> \<not> command_lock s'
             \<and> dials s' = dials s + (if conn_arg = None \<and> closed (conns s (connection s))
                                       then 1 else 0)"
    using first second third fourth sent by (simp add: pre_def)
  then show ?thesis by blast
qed






lemma dial_events_no_lock:
  "count_list (dial_events s) (Acquired CommandLock) = 0"
  "count_list (dial_events s) (Released CommandLock) = 0"
  by (simp_all add: dial_events_def)

text \<open>
  Claim C3. Take a request that ends, started with the command lock free. Afterwards the
  lock is free and can be acquired again. Among the actions of the request the lock is
  acquired and released equally often and at most once. If the exchange was entered
  (the lock was acquired), the lock is released exactly once and the release is the last
  action of the request, whatever the outcome of the exchange: lines, the error
  sentinel, a transport error or a read timeout. If the exchange was not entered, the
  request had no connection of its own and obtaining the session's connection failed.
\<close>

theorem command_lock_released_once:
  assumes "raw_request s request conn_arg = Some (res, s')" and "\<not> command_lock s"
  shows "\<not> command_lock s' \<and> acquire s' CommandLock \<noteq> None
       \<and> (\<exists>new. trace s' = trace s @ new
             \<and> count_list new (Acquired CommandLock) = count_list new (Released CommandLock)
             \<and> count_list new (Released CommandLock) \<le> 1
             \<and> (Acquired CommandLock \<in> set new
                \<longrightarrow> count_list new (Released CommandLock) = 1
                    \<and> last new = Released CommandLock)
             \<and> (Acquired CommandLock \<notin> set new
                \<longrightarrow> conn_arg = None
                    \<and> (\<exists>e. res = Inl e \<and> get_connection s = Some (Inl e, s'))))"
  using raw_request_trace [OF assms(1)]
proof (elim disjE exE conjE)
  fix e
  assume a: "conn_arg = None" "res = Inl e" "get_connection s = Some (Inl e, s')"
    "trace s' = trace s @ [Acquired ConnectionLock] @ dial_events s @ [Released ConnectionLock]"
    "command_lock s' = command_lock s"
    "dials s' = dials s + (if closed (conns s (connection s)) then 1 else 0)"
  let ?new = "[Acquired ConnectionLock] @ dial_events s @ [Released ConnectionLock]"
  have free: "\<not> command_lock s'" using a(5) assms(2) by simp
  have "trace s' = trace s @ ?new
             \<and> count_list ?new (Acquired CommandLock) = count_list ?new (Released CommandLock)
             \<and> count_list ?new (Released CommandLock) \<le> 1
             \<and> (Acquired CommandLock \<in> set ?new
                \<longrightarrow> count_list ?new (Released CommandLock) = 1
                    \<and> last ?new = Released CommandLock)
             \<and> (Acquired CommandLock \<notin> set ?new
                \<longrightarrow> conn_arg = None
                    \<and> (\<exists>e. res = Inl e \<and> get_connection s = Some (Inl e, s')))"
    using a by (auto simp: dial_events_def)
  then have "\<exists>new. trace s' = trace s @ new
             \<and> count_list new (Acquired CommandLock) = count_list new (Released CommandLock)
             \<and> count_list new (Released CommandLock) \<le> 1
             \<and> (Acquired CommandLock \<in> set new
                \<longrightarrow> count_list new (Released CommandLock) = 1
                    \<and> last new = Released CommandLock)
             \<and> (Acquired CommandLock \<notin> set new
                \<longrightarrow> conn_arg = None
                    \<and> (\<exists>e. res = Inl e \<and> get_connection s = Some (Inl e, s')))"
    by (rule exI [of _ ?new])
  with free show ?thesis by (simp add: acquire_def locked_def)
next
  fix pre sent
  assume a: "pre = (case conn_arg of
                      Some c \<Rightarrow> []
                    | None \<Rightarrow> [Acquired ConnectionLock] @ dial_events s
                               @ [Released ConnectionLock])"
    "sent \<in> {[], [Sent (request @ [10])]}"
    "trace s' = trace s @ pre @ [Acquired CommandLock] @ sent @ [Released CommandLock]"
    "\<not> command_lock s'"
  let ?new = "pre @ [Acquired CommandLock] @ sent @ [Released CommandLock]"
  have pre0: "count_list pre (Acquired CommandLock) = 0" "count_list pre (Released CommandLock) = 0"
    using a(1) by (auto simp: dial_events_def split: option.splits)
  have sent0: "count_list sent (Acquired CommandLock) = 0"
    "count_list sent (Released CommandLock) = 0"
    using a(2) by auto
  have "trace s' = trace s @ ?new
             \<and> count_list ?new (Acquired CommandLock) = count_list ?new (Released CommandLock)
             \<and> count_list ?new (Released CommandLock) \<le> 1
             \<and> (Acquired CommandLock \<in> set ?new
                \<longrightarrow> count_list ?new (Released CommandLock) = 1
                    \<and> last ?new = Released CommandLock)
             \<and> (Acquired CommandLock \<notin> set ?new
                \<longrightarrow> conn_arg = None
                    \<and> (\<exists>e. res = Inl e \<and> get_connection s = Some (Inl e, s')))"
    using a(3) pre0 sent0 by simp
  then have "\<exists>new. trace s' = trace s @ new
             \<and> count_list new (Acquired CommandLock) = count_list new (Released CommandLock)
             \<and> count_list new (Released CommandLock) \<le> 1
             \<and> (Acquired CommandLock \<in> set new
                \<longrightarrow> count_list new (Released CommandLock) = 1
                    \<and> last new = Released CommandLock)
             \<and> (Acquired CommandLock \<notin> set new
                \<longrightarrow> conn_arg = None
                    \<and> (\<exists>e. res = Inl e \<and> get_connection s = Some (Inl e, s')))"
    by (rule exI [of _ ?new])
  with a(4) show ?thesis by (simp add: acquire_def locked_def)
qed

theorem command_lock_released_once_witness:
  "map_option fst (raw_request (fresh (serving [])) (lit ''VGL 12'' @ [13]) None)
     = Some (Inl (ClientTimeoutError []))
   \<and> \<not> command_lock (fresh (serving []))
   \<and> \<not> command_lock (snd (the (raw_request (fresh (serving [])) (lit ''VGL 12'' @ [13]) None)))
   \<and> acquire (snd (the (raw_request (fresh (serving [])) (lit ''VGL 12'' @ [13]) None)))
        CommandLock \<noteq> None"
proof -
  from silent_run obtain s' where
    run: "raw_request (fresh (serving [])) (lit ''VGL 12'' @ [13]) None
           = Some (Inl (ClientTimeoutError []), s')" by blast
  have free: "\<not> command_lock (fresh (serving []))" by (simp add: fresh_def)
  from command_lock_released_once [OF run free] run free show ?thesis by simp
qed



section \<open>Reading up to a separator\<close>


















section \<open>The codec round trip\<close>

lemma digits_range: "c \<in> set (digits n) \<Longrightarrow> 48 \<le> c \<and> c \<le> 57"
proof (induction n rule: digits.induct)
  case (1 n)
  show ?case
  proof (cases "n < 10")
    case True
    with 1(2) show ?thesis by (simp add: digits.simps [of n])
  next
    case False
    with 1(2) have "c \<in> set (digits (n div 10)) \<or> c = 48 + n mod 10"
      by (auto simp: digits.simps [of n])
    then show ?thesis
    proof
      assume "c \<in> set (digits (n div 10))"
      with 1(1) [OF False] show ?thesis by simp
    next
      assume "c = 48 + n mod 10"
      moreover have "n mod 10 < 10" by simp
      ultimately show ?thesis by linarith
    qed
  qed
qed

lemma digits_nonempty: "digits n \<noteq> []"
  by (simp add: digits.simps [of n])

lemma not_space_digit: "48 \<le> c \<Longrightarrow> c \<le> 57 \<Longrightarrow> \<not> py_isspace c"
  by (simp add: py_isspace_def)

lemma solid_digits: "solid (digits n)"
proof -
  have "\<forall>c \<in> set (digits n). 48 \<le> c \<and> c \<le> 57" using digits_range by blast
  moreover from this have "hd (digits n) \<noteq> 34"
    using digits_nonempty [of n] by (cases "digits n") auto
  ultimately show ?thesis
    using digits_nonempty [of n] by (auto simp: solid_def py_isspace_def)
qed

lemma solid_int: "solid (py_str_int i)"
  using solid_digits [of "nat (- i)"] solid_digits [of "nat i"]
  by (auto simp: py_str_int_def solid_def py_isspace_def)

lemma solid_decimal: "solid (py_str_decimal m k)"
proof -
  let ?a = "nat \<bar>m\<bar>"
  have d: "\<And>n c. c \<in> set (digits n) \<Longrightarrow> \<not> py_isspace c \<and> c \<noteq> 34"
    using digits_range by (fastforce simp: py_isspace_def)
  have all: "\<forall>c \<in> set (py_str_decimal m k). \<not> py_isspace c \<and> c \<noteq> 34"
    using d by (auto simp: py_str_decimal_def Let_def py_isspace_def)
  have ne: "py_str_decimal m k \<noteq> []"
    using digits_nonempty by (simp add: py_str_decimal_def Let_def)
  then have "hd (py_str_decimal m k) \<in> set (py_str_decimal m k)" by simp
  with all ne show ?thesis by (auto simp: solid_def)
qed

lemma scan_bare_end:
  "\<forall>c \<in> set t. \<not> py_isspace c \<Longrightarrow> scan (Bare got) t = Some [got @ t]"
  by (induction t arbitrary: got) auto

lemma scan_bare_space:
  "\<forall>c \<in> set t. \<not> py_isspace c
   \<Longrightarrow> scan (Bare got) (t @ 32 # rest) = map_option ((#) (got @ t)) (scan Outside rest)"
  by (induction t arbitrary: got) (auto simp: py_isspace_def)

lemma scan_quoted:
  "34 \<notin> set t
   \<Longrightarrow> scan (Quoted got) (t @ 34 # rest) = map_option ((#) (got @ t)) (scan Outside rest)"
  by (induction t arbitrary: got) auto

lemma scan_solid_end: "solid t \<Longrightarrow> scan Outside t = Some [t]"
  using scan_bare_end [of "tl t" "[hd t]"]
  by (cases t) (auto simp: solid_def)

lemma scan_solid_space:
  "solid t \<Longrightarrow> scan Outside (t @ 32 # rest) = map_option ((#) t) (scan Outside rest)"
  using scan_bare_space [of "tl t" "[hd t]" rest]
  by (cases t) (auto simp: solid_def)

lemma scan_quoted_end: "34 \<notin> set v \<Longrightarrow> scan Outside (34 # v @ [34]) = Some [v]"
  using scan_quoted [of v "[]" "[]"] by (simp add: py_isspace_def)

lemma scan_quoted_space:
  "34 \<notin> set v
   \<Longrightarrow> scan Outside (34 # v @ 34 # 32 # rest) = map_option ((#) v) (scan Outside rest)"
  using scan_quoted [of v "[]" "32 # rest"] by (simp add: py_isspace_def)

lemma encode_param_end:
  assumes "recoverable fq p"
  shows "scan Outside (encode_param fq p) = Some [param_text p]"
proof (cases p)
  case (PStr v)
  show ?thesis
  proof (cases "32 \<in> set v \<or> fq")
    case True
    with assms PStr show ?thesis
      using scan_quoted_end [of v] by (auto simp: recoverable_def encode_param_def param_text_def)
  next
    case False
    with assms PStr have "solid v"
      by (cases v) (auto simp: recoverable_def solid_def list_ex_iff)
    with False PStr show ?thesis
      using scan_solid_end [of v] by (auto simp: encode_param_def param_text_def)
  qed
next
  case (PInt i)
  then show ?thesis
    using scan_solid_end [OF solid_int, of i] by (simp add: encode_param_def param_text_def)
next
  case (PDec m k)
  then show ?thesis
    using scan_solid_end [OF solid_decimal, of m k] by (simp add: encode_param_def param_text_def)
qed

lemma encode_param_space:
  assumes "recoverable fq p"
  shows "scan Outside (encode_param fq p @ 32 # rest)
           = map_option ((#) (param_text p)) (scan Outside rest)"
proof (cases p)
  case (PStr v)
  show ?thesis
  proof (cases "32 \<in> set v \<or> fq")
    case True
    with assms PStr show ?thesis
      using scan_quoted_space [of v rest]
      by (auto simp: recoverable_def encode_param_def param_text_def)
  next
    case False
    with assms PStr have "solid v"
      by (cases v) (auto simp: recoverable_def solid_def list_ex_iff)
    with False PStr show ?thesis
      using scan_solid_space [of v rest] by (auto simp: encode_param_def param_text_def)
  qed
next
  case (PInt i)
  then show ?thesis
    using scan_solid_space [OF solid_int, of i rest]
    by (simp add: encode_param_def param_text_def)
next
  case (PDec m k)
  then show ?thesis
    using scan_solid_space [OF solid_decimal, of m k rest]
    by (simp add: encode_param_def param_text_def)
qed

lemma scan_join:
  "list_all (recoverable fq) ps
   \<Longrightarrow> scan Outside (join [32] (map (encode_param fq) ps)) = Some (map param_text ps)"
proof (induction ps rule: induct_list012)
  case 1
  show ?case by simp
next
  case (2 p)
  then show ?case using encode_param_end [of fq p] by simp
next
  case (3 p q qs)
  then have "scan Outside (join [32] (map (encode_param fq) (q # qs)))
      = Some (map param_text (q # qs))"
    by simp
  moreover from 3 have "recoverable fq p" by simp
  ultimately show ?case
    using encode_param_space [of fq p "join [32] (map (encode_param fq) (q # qs))"]
    by simp
qed

text \<open>
  Claim C5, as amended. For every sequence of parameters in which no string contains a
  double quote and every string that is rendered bare (it has no space and quoting is
  not forced) is non-empty and free of white space, tokenizing the encoded parameters
  gives back the string renderings of the parameters, in order.
\<close>

theorem tokenize_encode_round_trip:
  assumes "list_all (recoverable force_quotes) params"
  shows "tokenize_response (encode_params params force_quotes) = Inr (map param_text params)"
  using scan_join [OF assms] by (simp add: tokenize_response_def encode_params_def)

theorem tokenize_encode_round_trip_witness:
  "list_all (recoverable False) [PStr (lit ''a b''), PInt (- 12), PDec 1500 3, PStr (lit ''x'')]
   \<and> tokenize_response
        (encode_params [PStr (lit ''a b''), PInt (- 12), PDec 1500 3, PStr (lit ''x'')] False)
     = Inr [lit ''a b'', lit ''-12'', lit ''1.500'', lit ''x'']"
proof -
  have ok: "list_all (recoverable False)
      [PStr (lit ''a b''), PInt (- 12), PDec 1500 3, PStr (lit ''x'')]"
    by (simp add: recoverable_def lit_def py_isspace_def)
  have rendered: "map param_text [PStr (lit ''a b''), PInt (- 12), PDec 1500 3, PStr (lit ''x'')]
      = [lit ''a b'', lit ''-12'', lit ''1.500'', lit ''x'']"
    by (simp add: param_text_def py_str_int_def py_str_decimal_def digits.simps lit_def Let_def)
  from tokenize_encode_round_trip [OF ok] ok rendered show ?thesis by simp
qed

theorem bare_string_round_trip_counterexample:
  "tokenize_response (encode_params [PStr []] False) = Inr []
   \<and> map param_text [PStr []] = [[]]
   \<and> tokenize_response (encode_params [PStr [97, 9, 98]] False) = Inr [[97], [98]]
   \<and> map param_text [PStr [97, 9, 98]] = [[97, 9, 98]]"
  by (simp add: tokenize_response_def encode_params_def encode_param_def param_text_def
      py_isspace_def)

end
